theory Spec2Isabelle
  imports Main "HOL-Library.Word" "HOL-Library.Multiset"
begin

unbundle bit_operations_syntax

section \<open>Values of the service\<close>

text \<open>
  A Node \<open>Buffer\<close> is a list of bytes. A thrown JavaScript \<open>Error\<close> is kept as the value
  it carries, its \<open>message\<close>; every \<open>throw\<close> and rejected promise of the source is an
  \<open>Inl\<close> of a sum type.
\<close>

type_synonym byte = "8 word"
type_synonym buffer = "byte list"
type_synonym u32 = "32 word"

datatype js_error = Error (message: string)

text \<open>The bytes of an ASCII string literal, as \<open>Buffer.from(s)\<close> holds them.\<close>

definition ascii_bytes :: "string \<Rightarrow> buffer" where
  "ascii_bytes s = map (\<lambda>c. of_nat (of_char c)) s"

section \<open>The digest: \<open>createHash('sha256').update(content).digest('hex')\<close>\<close>

text \<open>
  \<open>crypto.createHash('sha256')\<close> is Node's SHA-256. The library is not part of the repository;
  the function it computes is the one of FIPS 180-4, written out here on 32-bit words:
  padding to a multiple of 64 bytes, big-endian words, the message schedule, 64 rounds per
  block, and the lower-case hexadecimal rendering that \<open>digest('hex')\<close> returns.
\<close>

definition rotr :: "nat \<Rightarrow> u32 \<Rightarrow> u32" where
  "rotr n x = (drop_bit n x) OR (push_bit (32 - n) x)"

definition Ch :: "u32 \<Rightarrow> u32 \<Rightarrow> u32 \<Rightarrow> u32" where
  "Ch x y z = (x AND y) XOR (NOT x AND z)"

definition Maj :: "u32 \<Rightarrow> u32 \<Rightarrow> u32 \<Rightarrow> u32" where
  "Maj x y z = (x AND y) XOR (x AND z) XOR (y AND z)"

definition Sigma0 :: "u32 \<Rightarrow> u32" where
  "Sigma0 x = rotr 2 x XOR rotr 13 x XOR rotr 22 x"

definition Sigma1 :: "u32 \<Rightarrow> u32" where
  "Sigma1 x = rotr 6 x XOR rotr 11 x XOR rotr 25 x"

definition sigma0 :: "u32 \<Rightarrow> u32" where
  "sigma0 x = rotr 7 x XOR rotr 18 x XOR drop_bit 3 x"

definition sigma1 :: "u32 \<Rightarrow> u32" where
  "sigma1 x = rotr 17 x XOR rotr 19 x XOR drop_bit 10 x"

text \<open>
  The round constants are the first 32 bits of the fractional parts of the cube roots of
  the first 64 primes, the initial hash value those of the square roots of the first 8;
  each constant is listed with its prime.
\<close>

definition round_constants :: "(nat \<times> u32) list" where
  "round_constants =
    [(2, 0x428a2f98), (3, 0x71374491), (5, 0xb5c0fbcf), (7, 0xe9b5dba5),
     (11, 0x3956c25b), (13, 0x59f111f1), (17, 0x923f82a4), (19, 0xab1c5ed5),
     (23, 0xd807aa98), (29, 0x12835b01), (31, 0x243185be), (37, 0x550c7dc3),
     (41, 0x72be5d74), (43, 0x80deb1fe), (47, 0x9bdc06a7), (53, 0xc19bf174),
     (59, 0xe49b69c1), (61, 0xefbe4786), (67, 0x0fc19dc6), (71, 0x240ca1cc),
     (73, 0x2de92c6f), (79, 0x4a7484aa), (83, 0x5cb0a9dc), (89, 0x76f988da),
     (97, 0x983e5152), (101, 0xa831c66d), (103, 0xb00327c8), (107, 0xbf597fc7),
     (109, 0xc6e00bf3), (113, 0xd5a79147), (127, 0x06ca6351), (131, 0x14292967),
     (137, 0x27b70a85), (139, 0x2e1b2138), (149, 0x4d2c6dfc), (151, 0x53380d13),
     (157, 0x650a7354), (163, 0x766a0abb), (167, 0x81c2c92e), (173, 0x92722c85),
     (179, 0xa2bfe8a1), (181, 0xa81a664b), (191, 0xc24b8b70), (193, 0xc76c51a3),
     (197, 0xd192e819), (199, 0xd6990624), (211, 0xf40e3585), (223, 0x106aa070),
     (227, 0x19a4c116), (229, 0x1e376c08), (233, 0x2748774c), (239, 0x34b0bcb5),
     (241, 0x391c0cb3), (251, 0x4ed8aa4a), (257, 0x5b9cca4f), (263, 0x682e6ff3),
     (269, 0x748f82ee), (271, 0x78a5636f), (277, 0x84c87814), (281, 0x8cc70208),
     (283, 0x90befffa), (293, 0xa4506ceb), (307, 0xbef9a3f7), (311, 0xc67178f2)]"

definition initial_hash :: "(nat \<times> u32) list" where
  "initial_hash =
    [(2, 0x6a09e667), (3, 0xbb67ae85), (5, 0x3c6ef372), (7, 0xa54ff53a),
     (11, 0x510e527f), (13, 0x9b05688c), (17, 0x1f83d9ab), (19, 0x5be0cd19)]"

definition K256 :: "u32 list" where
  "K256 = map snd round_constants"

definition H256 :: "u32 list" where
  "H256 = map snd initial_hash"

text \<open>The integer parts of the roots, for the primes of the two tables.\<close>

definition cube_root :: "nat \<Rightarrow> nat" where
  "cube_root p =
     (if p < 8 then 1 else if p < 27 then 2 else if p < 64 then 3
      else if p < 125 then 4 else if p < 216 then 5 else 6)"

definition square_root :: "nat \<Rightarrow> nat" where
  "square_root p = (if p < 4 then 1 else if p < 9 then 2 else if p < 16 then 3 else 4)"

definition cube_root_bits :: "nat \<times> u32 \<Rightarrow> bool" where
  "cube_root_bits pk =
     (let x = int (cube_root (fst pk)) * 2 ^ 32 + uint (snd pk)
      in x ^ 3 \<le> int (fst pk) * 2 ^ 96 \<and> int (fst pk) * 2 ^ 96 < (x + 1) ^ 3)"

definition square_root_bits :: "nat \<times> u32 \<Rightarrow> bool" where
  "square_root_bits pk =
     (let x = int (square_root (fst pk)) * 2 ^ 32 + uint (snd pk)
      in x ^ 2 \<le> int (fst pk) * 2 ^ 64 \<and> int (fst pk) * 2 ^ 64 < (x + 1) ^ 2)"

text \<open>The message length in bits, as eight big-endian bytes (a 64-bit count).\<close>

definition length_bytes :: "nat \<Rightarrow> byte list" where
  "length_bytes n =
     (let l = (of_nat n :: 64 word) in map (\<lambda>i. ucast (drop_bit (8 * (7 - i)) l)) [0..<8])"

definition sha_pad :: "buffer \<Rightarrow> buffer" where
  "sha_pad m =
     m @ [0x80] @ replicate ((119 - length m mod 64) mod 64) 0 @ length_bytes (8 * length m)"

fun be_words :: "byte list \<Rightarrow> u32 list" where
  "be_words (a # b # c # d # bs) =
     (push_bit 24 (ucast a) OR push_bit 16 (ucast b) OR push_bit 8 (ucast c) OR ucast d)
       # be_words bs"
| "be_words _ = []"

text \<open>
  The message schedule, over a window of the last sixteen words: each new word is made of
  the words 2, 7, 15 and 16 places back.
\<close>

fun schedule :: "nat \<Rightarrow> u32 list \<Rightarrow> u32 list" where
  "schedule 0 w = []"
| "schedule (Suc n) w =
     (let x = sigma1 (w ! 14) + w ! 9 + sigma0 (w ! 1) + w ! 0
      in x # schedule n (tl w @ [x]))"

definition round256 :: "u32 list \<Rightarrow> u32 \<times> u32 \<Rightarrow> u32 list" where
  "round256 s kw =
     (case s of
        [a, b, c, d, e, f, g, h] \<Rightarrow>
          (let t1 = h + Sigma1 e + Ch e f g + fst kw + snd kw;
               t2 = Sigma0 a + Maj a b c
           in [t1 + t2, a, b, c, d + t1, e, f, g])
      | _ \<Rightarrow> s)"

definition compress :: "u32 list \<Rightarrow> u32 list \<Rightarrow> u32 list" where
  "compress h blk = map2 (+) h (foldl round256 h (zip K256 (blk @ schedule 48 blk)))"

definition blocks :: "u32 list \<Rightarrow> u32 list list" where
  "blocks ws = map (\<lambda>i. take 16 (drop (16 * i) ws)) [0..<length ws div 16]"

definition sha256 :: "buffer \<Rightarrow> u32 list" where
  "sha256 m = foldl compress H256 (blocks (be_words (sha_pad m)))"

definition hex_digit :: "nat \<Rightarrow> char" where
  "hex_digit n = ''0123456789abcdef'' ! (n mod 16)"

definition hex_u32 :: "u32 \<Rightarrow> string" where
  "hex_u32 x = map (\<lambda>i. hex_digit (unat (drop_bit (28 - 4 * i) x AND 15))) [0..<8]"

definition sha256_hex :: "buffer \<Rightarrow> string" where
  "sha256_hex m = concat (map hex_u32 (sha256 m))"

section \<open>The world the service runs in\<close>

text \<open>
  The item record of \<open>prisma.file\<close> (the \<open>files\<close> table). \<open>status\<close> is one of the four
  strings the schema's check admits. \<open>extractedData\<close> is a nullable text column holding a JSON
  document; the document is kept as its tree, \<open>JSON.stringify\<close> being injective on the
  objects the service writes.
\<close>

datatype file_status = Uploaded | Processing | Processed | Failed

datatype json = JString string | JNumber nat | JObject "(string \<times> json) list"

record file_row =
  userId :: nat
  originalFilename :: string
  storagePath :: string
  title :: "string option"
  description :: "string option"
  status :: file_status
  extractedData :: "json option"
  uploadedAt :: string

text \<open>
  The options of a job (\<open>attempts\<close>, \<open>backoff: { type, delay }\<close>), its payload
  \<open>{ fileId, filePath }\<close>, and the job as BullMQ hands it to the processor. BullMQ numbers
  the jobs of a queue; \<open>job_id\<close> is that number.
\<close>

record job_options =
  attempts :: nat
  backoff_type :: string
  backoff_delay :: nat

record job_data =
  fileId :: nat
  filePath :: string

record job =
  job_id :: nat
  job_name :: string
  data :: job_data
  attemptsMade :: nat
  opts :: job_options

text \<open>The \<open>Queue\<close> and \<open>Worker\<close> objects, with the options the source constructs them with.\<close>

record queue_instance =
  queue_name :: string
  defaultJobOptions :: job_options

record worker_instance =
  worker_queue :: string
  concurrency :: nat
  autorun :: bool

text \<open>
  A line written to the console, by what it says: job (by number) failed for file (by id)
  with an error; the status update failed with an error; the upload failed with an error;
  job completed for file.
\<close>

datatype console_line =
    JobFailedLine nat nat js_error
  | StatusUpdateFailedLine js_error
  | UploadErrorLine js_error
  | JobCompletedLine nat nat

text \<open>
  What the service did to the database and the queue, in the order it did it. The list is
  a record of the run, kept to state what happened before what; the code never reads it.
  A row is named by its id, a job by its number, a queue object by its reference:
  \<open>JobAdded q j f\<close> is job \<open>j\<close> for the file \<open>f\<close> added through the queue \<open>q\<close>,
  \<open>AttemptStarted j n\<close> the \<open>n\<close>-th execution of job \<open>j\<close>, \<open>Requeued j d\<close> its requeue with
  the delay \<open>d\<close>, \<open>Finalized j ok\<close> its end, completed or failed.
\<close>

datatype effect =
    RowCreated nat file_status
  | RowUpdated nat file_status
  | RowUpdateRejected nat
  | JobAdded nat nat nat
  | AttemptStarted nat nat
  | Requeued nat nat
  | Finalized nat bool

text \<open>
  Everything the code reads or writes beyond its local variables:
  \<^item> \<open>node_env\<close>: \<open>process.env.NODE_ENV\<close>;
  \<^item> \<open>disk\<close>: what \<open>fs.readFile(path)\<close> resolves or rejects with;
  \<^item> \<open>date_now\<close>: what \<open>new Date().toISOString()\<close> returns;
  \<^item> \<open>files\<close>, \<open>next_file_id\<close>: the \<open>files\<close> table and its serial column;
  \<^item> \<open>db_faults\<close>: the outcome of the coming database calls, in order: \<open>Some e\<close> when the
    call is rejected with \<open>e\<close> whatever the table holds (a lost connection, a timeout),
    \<open>None\<close> when the database answers; an exhausted list means no further fault;
  \<^item> \<open>console\<close>: the lines written to the console, oldest first;
  \<^item> \<open>fileQueue\<close>, \<open>worker\<close>: the two module variables of \<open>fileProcessor.js\<close>
    (\<open>None\<close> is \<open>undefined\<close>), holding references into \<open>queues\<close> and \<open>workers\<close>, the
    \<open>Queue\<close> and \<open>Worker\<close> objects allocated so far; \<open>next_ref\<close> is the next fresh reference;
  \<^item> \<open>waiting\<close>, \<open>delayed\<close>, \<open>active\<close>, \<open>completed\<close>, \<open>failed\<close>: the jobs of the queue
    \<open>fileProcessing\<close> in Redis, by state; \<open>next_job_id\<close> numbers them;
  \<^item> \<open>redis_faults\<close>: as \<open>db_faults\<close>, for the calls that reach Redis;
  \<^item> \<open>effects\<close>: the record of the run.
\<close>

record world =
  node_env :: "string option"
  disk :: "string \<Rightarrow> js_error + buffer"
  date_now :: string
  files :: "nat \<rightharpoonup> file_row"
  next_file_id :: nat
  db_faults :: "js_error option list"
  console :: "console_line list"
  fileQueue :: "nat option"
  worker :: "nat option"
  queues :: "nat \<rightharpoonup> queue_instance"
  workers :: "nat \<rightharpoonup> worker_instance"
  next_ref :: nat
  waiting :: "job list"
  delayed :: "(nat \<times> job) list"
  active :: "job list"
  completed :: "job list"
  failed :: "job list"
  next_job_id :: nat
  redis_faults :: "js_error option list"
  effects :: "effect list"

definition is_test :: "world \<Rightarrow> bool" where
  "is_test w = (node_env w = Some ''test'')"

definition console_write :: "console_line \<Rightarrow> world \<Rightarrow> world" where
  "console_write l w = w\<lparr>console := console w @ [l]\<rparr>"

definition log_effect :: "effect \<Rightarrow> world \<Rightarrow> world" where
  "log_effect e w = w\<lparr>effects := effects w @ [e]\<rparr>"

section \<open>\<open>processFile\<close>\<close>

record processed =
  hash :: string
  size_bytes :: nat
  processedAt :: string

text \<open>
  \<open>processFile\<close> reads the file, hashes it, waits (100 ms under test, 2000 ms otherwise: time
  only, no state) and returns \<open>{ hash, size, processedAt }\<close>. The only statement of its
  \<open>try\<close> block that can throw is the read; the \<open>catch\<close> wraps the message.
\<close>

definition processFile :: "world \<Rightarrow> string \<Rightarrow> js_error + processed" where
  "processFile w path =
     (case disk w path of
        Inl error \<Rightarrow> Inl (Error (''File processing failed: '' @ message error))
      | Inr fileContent \<Rightarrow>
          Inr \<lparr> hash = sha256_hex fileContent,
                size_bytes = length fileContent,
                processedAt = date_now w \<rparr>)"

section \<open>The \<open>files\<close> table: \<open>prisma.file.update\<close> and \<open>prisma.file.create\<close>\<close>

text \<open>Prisma's error P2025 for an update whose \<open>where\<close> matches no row.\<close>

definition record_not_found :: js_error where
  "record_not_found = Error ''Record to update not found.''"

definition next_db_fault :: "world \<Rightarrow> js_error option \<times> world" where
  "next_db_fault w =
     (case db_faults w of
        [] \<Rightarrow> (None, w)
      | f # fs \<Rightarrow> (f, w\<lparr>db_faults := fs\<rparr>))"

text \<open>
  \<open>prisma.file.update({ where: { id }, data })\<close>: \<open>change\<close> is what \<open>data\<close> does to the
  named columns. The call rejects when the database does, or when no row has the id; it is
  one statement, so the columns of \<open>data\<close> change together or not at all.
\<close>

definition file_update ::
  "nat \<Rightarrow> (file_row \<Rightarrow> file_row) \<Rightarrow> world \<Rightarrow> (js_error + file_row) \<times> world" where
  "file_update fid change w =
     (case next_db_fault w of
        (Some e, w1) \<Rightarrow> (Inl e, log_effect (RowUpdateRejected fid) w1)
      | (None, w1) \<Rightarrow>
          (case files w1 fid of
             None \<Rightarrow> (Inl record_not_found, log_effect (RowUpdateRejected fid) w1)
           | Some row \<Rightarrow>
               (Inr (change row),
                log_effect (RowUpdated fid (status (change row)))
                  (w1\<lparr>files := (files w1)(fid \<mapsto> change row)\<rparr>))))"

text \<open>
  \<open>prisma.file.create({ data })\<close>: the new row takes the next serial id; the created row is
  returned with its id.
\<close>

definition file_create :: "file_row \<Rightarrow> world \<Rightarrow> (js_error + nat \<times> file_row) \<times> world" where
  "file_create row w =
     (case next_db_fault w of
        (Some e, w1) \<Rightarrow> (Inl e, w1)
      | (None, w1) \<Rightarrow>
          (let fid = next_file_id w1 in
           (Inr (fid, row),
            log_effect (RowCreated fid (status row))
              (w1\<lparr>files := (files w1)(fid \<mapsto> row), next_file_id := Suc fid\<rparr>))))"

section \<open>The worker's processor\<close>

text \<open>\<open>JSON.stringify(result)\<close> and \<open>JSON.stringify({ error: error.message })\<close>.\<close>

definition result_json :: "processed \<Rightarrow> json" where
  "result_json r =
     JObject [(''hash'', JString (hash r)), (''size'', JNumber (size_bytes r)),
              (''processedAt'', JString (processedAt r))]"

definition error_json :: "js_error \<Rightarrow> json" where
  "error_json e = JObject [(''error'', JString (message e))]"

text \<open>The three status writes of the processor, in the order they stand in the source.\<close>

definition mark_processing :: "job \<Rightarrow> world \<Rightarrow> (js_error + file_row) \<times> world" where
  "mark_processing j w = file_update (fileId (data j)) (\<lambda>r. r\<lparr>status := Processing\<rparr>) w"

definition mark_processed :: "job \<Rightarrow> processed \<Rightarrow> world \<Rightarrow> (js_error + file_row) \<times> world" where
  "mark_processed j result w =
     file_update (fileId (data j))
       (\<lambda>r. r\<lparr>status := Processed, extractedData := Some (result_json result)\<rparr>) w"

definition mark_failed :: "job \<Rightarrow> js_error \<Rightarrow> world \<Rightarrow> (js_error + file_row) \<times> world" where
  "mark_failed j error w =
     file_update (fileId (data j))
       (\<lambda>r. r\<lparr>status := Failed, extractedData := Some (error_json error)\<rparr>) w"

text \<open>The \<open>try\<close> block of the processor: three awaited calls, the first rejection leaving it.\<close>

definition processor_try :: "job \<Rightarrow> world \<Rightarrow> (js_error + processed) \<times> world" where
  "processor_try j w =
     (case mark_processing j w of
        (Inl e, w1) \<Rightarrow> (Inl e, w1)
      | (Inr _, w1) \<Rightarrow>
          (case processFile w1 (filePath (data j)) of
             Inl e \<Rightarrow> (Inl e, w1)
           | Inr result \<Rightarrow>
               (case mark_processed j result w1 of
                  (Inl e, w2) \<Rightarrow> (Inl e, w2)
                | (Inr _, w2) \<Rightarrow> (Inr result, w2))))"

text \<open>
  The \<open>catch\<close> block: log, write \<open>failed\<close> with the message (the rejection of that write is
  caught and logged), then rethrow the error that was caught.
\<close>

definition processor_catch :: "job \<Rightarrow> js_error \<Rightarrow> world \<Rightarrow> (js_error + processed) \<times> world" where
  "processor_catch j error w =
     (case mark_failed j error (console_write (JobFailedLine (job_id j) (fileId (data j)) error) w) of
        (Inl updateError, w1) \<Rightarrow> (Inl error, console_write (StatusUpdateFailedLine updateError) w1)
      | (Inr _, w1) \<Rightarrow> (Inl error, w1))"

definition processor :: "job \<Rightarrow> world \<Rightarrow> (js_error + processed) \<times> world" where
  "processor j w =
     (case processor_try j w of
        (Inr result, w1) \<Rightarrow> (Inr result, w1)
      | (Inl error, w1) \<Rightarrow> processor_catch j error w1)"

section \<open>The module: \<open>initializeQueue\<close>, \<open>initializeWorker\<close>, \<open>addFileProcessingJob\<close>\<close>

definition default_job_options :: job_options where
  "default_job_options = \<lparr> attempts = 3, backoff_type = ''exponential'', backoff_delay = 1000 \<rparr>"

text \<open>\<open>new Queue('fileProcessing', ...)\<close> and \<open>new Worker('fileProcessing', ..., ...)\<close>.\<close>

definition new_Queue :: "queue_instance \<Rightarrow> world \<Rightarrow> nat \<times> world" where
  "new_Queue q w =
     (next_ref w, w\<lparr>queues := (queues w)(next_ref w \<mapsto> q), next_ref := Suc (next_ref w)\<rparr>)"

definition new_Worker :: "worker_instance \<Rightarrow> world \<Rightarrow> nat \<times> world" where
  "new_Worker k w =
     (next_ref w, w\<lparr>workers := (workers w)(next_ref w \<mapsto> k), next_ref := Suc (next_ref w)\<rparr>)"

definition initializeQueue :: "world \<Rightarrow> nat \<times> world" where
  "initializeQueue w =
     (case fileQueue w of
        None \<Rightarrow>
          (let (q, w1) = new_Queue \<lparr> queue_name = ''fileProcessing'',
                                     defaultJobOptions = default_job_options \<rparr> w
           in (q, w1\<lparr>fileQueue := Some q\<rparr>))
      | Some q \<Rightarrow> (q, w))"

definition initializeWorker :: "world \<Rightarrow> nat \<times> world" where
  "initializeWorker w =
     (case worker w of
        None \<Rightarrow>
          (let (k, w1) = new_Worker \<lparr> worker_queue = ''fileProcessing'',
                                      concurrency = (if is_test w then 1 else 5),
                                      autorun = (\<not> is_test w) \<rparr> w
           in (k, w1\<lparr>worker := Some k\<rparr>))
      | Some k \<Rightarrow> (k, w))"

text \<open>
  The statements the module runs when it is first required: outside the test environment
  both variables are assigned, and the exports \<open>fileQueue\<close> and \<open>worker\<close> are what the two
  functions return then.
\<close>

definition module_load :: "world \<Rightarrow> (nat \<times> nat) \<times> world" where
  "module_load w =
     (let w2 = (if \<not> is_test w
                then (let (q, w1) = initializeQueue w;
                          (k, w2) = initializeWorker (w1\<lparr>fileQueue := Some q\<rparr>)
                      in w2\<lparr>worker := Some k\<rparr>)
                else w);
          (q, w3) = initializeQueue w2;
          (k, w4) = initializeWorker w3
      in ((q, k), w4))"

definition next_redis_fault :: "world \<Rightarrow> js_error option \<times> world" where
  "next_redis_fault w =
     (case redis_faults w of
        [] \<Rightarrow> (None, w)
      | f # fs \<Rightarrow> (f, w\<lparr>redis_faults := fs\<rparr>))"

text \<open>
  \<open>queue.add(name, data)\<close> on the queue object \<open>q\<close>: the job gets the next number and the
  queue's default options, and waits. A reference that names no queue object cannot come
  out of \<open>initializeQueue\<close>; calling a method on it would be a \<open>TypeError\<close>.
\<close>

definition queue_add :: "nat \<Rightarrow> string \<Rightarrow> job_data \<Rightarrow> world \<Rightarrow> (js_error + job) \<times> world" where
  "queue_add q name d w =
     (case queues w q of
        None \<Rightarrow> (Inl (Error ''queue.add is not a function''), w)
      | Some inst \<Rightarrow>
          (case next_redis_fault w of
             (Some e, w1) \<Rightarrow> (Inl e, w1)
           | (None, w1) \<Rightarrow>
               (let j = \<lparr> job_id = next_job_id w1, job_name = name, data = d,
                          attemptsMade = 0, opts = defaultJobOptions inst \<rparr>
                in (Inr j,
                    log_effect (JobAdded q (job_id j) (fileId d))
                      (w1\<lparr>waiting := waiting w1 @ [j], next_job_id := Suc (next_job_id w1)\<rparr>)))))"

definition addFileProcessingJob :: "nat \<Rightarrow> string \<Rightarrow> world \<Rightarrow> (js_error + job) \<times> world" where
  "addFileProcessingJob fid path w =
     (let (queue, w1) = initializeQueue w
      in queue_add queue ''processFile'' \<lparr> fileId = fid, filePath = path \<rparr> w1)"

section \<open>The route \<open>POST /files/upload\<close>\<close>

text \<open>
  The request as the handler receives it: \<open>req.user\<close> set by the \<open>auth\<close> middleware,
  \<open>req.file\<close> by multer (\<open>None\<close> when the form had no \<open>file\<close> part), and the two fields of
  \<open>req.body\<close>.
\<close>

record uploaded_file =
  originalname :: string
  path :: string

record upload_request =
  req_user_id :: nat
  req_file :: "uploaded_file option"
  body_title :: "string option"
  body_description :: "string option"

datatype response = Response (code: nat) (body: json)

definition status_text :: "file_status \<Rightarrow> string" where
  "status_text s =
     (case s of Uploaded \<Rightarrow> ''uploaded'' | Processing \<Rightarrow> ''processing''
      | Processed \<Rightarrow> ''processed'' | Failed \<Rightarrow> ''failed'')"

definition upload_error :: "js_error \<Rightarrow> world \<Rightarrow> response \<times> world" where
  "upload_error error w =
     (Response 500 (JObject [(''error'', JString ''Error uploading file'')]),
      console_write (UploadErrorLine error) w)"

definition upload :: "upload_request \<Rightarrow> world \<Rightarrow> response \<times> world" where
  "upload req w =
     (case req_file req of
        None \<Rightarrow> (Response 400 (JObject [(''error'', JString ''No file uploaded'')]), w)
      | Some f \<Rightarrow>
          (case file_create \<lparr> userId = req_user_id req,
                              originalFilename = originalname f,
                              storagePath = path f,
                              title = body_title req,
                              description = body_description req,
                              status = Uploaded,
                              extractedData = None,
                              uploadedAt = date_now w \<rparr> w of
             (Inl error, w1) \<Rightarrow> upload_error error w1
           | (Inr (fid, file), w1) \<Rightarrow>
               (case addFileProcessingJob fid (path f) w1 of
                  (Inl error, w2) \<Rightarrow> upload_error error w2
                | (Inr _, w2) \<Rightarrow>
                    (Response 201
                       (JObject [(''id'', JNumber fid),
                                 (''status'', JString (status_text (status file))),
                                 (''message'',
                                  JString ''File uploaded successfully and queued for processing'')]),
                     w2))))"

section \<open>The listeners of the worker\<close>

text \<open>
  \<open>worker.on('completed', ...)\<close> and \<open>worker.on('failed', ...)\<close>: outside the test environment
  each prints a line; the \<open>error\<close> listener only prints and has no job to act on.
\<close>

definition on_completed :: "job \<Rightarrow> world \<Rightarrow> world" where
  "on_completed j w =
     (if \<not> is_test w then console_write (JobCompletedLine (job_id j) (fileId (data j))) w else w)"

definition on_failed :: "job \<Rightarrow> js_error \<Rightarrow> world \<Rightarrow> world" where
  "on_failed j error w =
     (if \<not> is_test w then console_write (JobFailedLine (job_id j) (fileId (data j)) error) w else w)"

section \<open>Retry and backoff\<close>

text \<open>
  Modelled from the spec: the retry/backoff policy. The source only configures it
  (\<open>attempts: 3\<close>, \<open>backoff: { type: 'exponential', delay: 1000 }\<close>) and rethrows from the
  processor; the decision is taken inside the BullMQ library, which is not in the
  repository. Section 4.4 of the specification states the policy: with the job's
  \<open>attemptCount\<close>, a maximum of attempts and a base delay that doubles per attempt, requeue
  with the computed delay if \<open>attemptCount < maxAttempts\<close>, otherwise finalize as failed.
  The count includes the attempt that has just failed, so the first retry waits the base
  delay. A backoff type other than \<open>'exponential'\<close> keeps the base delay.
\<close>

datatype decision = Requeue nat | FinalizeFailed

text \<open>
  Modelled from the spec: the computed delay, the base delay doubled once per attempt
  already made before the one that failed.
\<close>

definition computedDelay :: "job_options \<Rightarrow> nat \<Rightarrow> nat" where
  "computedDelay p attemptCount =
     (if backoff_type p = ''exponential'' then backoff_delay p * 2 ^ (attemptCount - 1)
      else backoff_delay p)"

text \<open>
  Modelled from the spec: the decision, requeue while \<open>attemptCount < maxAttempts\<close>.
\<close>

definition retry_policy :: "job_options \<Rightarrow> nat \<Rightarrow> decision" where
  "retry_policy p attemptCount =
     (if attemptCount < attempts p then Requeue (computedDelay p attemptCount)
      else FinalizeFailed)"

text \<open>
  Modelled from the spec: what an executor does with a job it has claimed (section 4.3):
  invoke the processor; on success finalize as completed; on failure, the status write
  being part of the processor, hand the error to the retry policy. The listeners of the
  source run on the two outcomes.
\<close>

datatype settled = Done processed | Again nat | GaveUp js_error

text \<open>
  Modelled from the spec: a claim counts as an attempt (\<open>attemptCount\<close> starts at 0 and is
  the number of execution attempts made).
\<close>

definition claimed :: "job \<Rightarrow> job" where
  "claimed j = j\<lparr>attemptsMade := Suc (attemptsMade j)\<rparr>"

text \<open>
  Modelled from the spec: the outcome of the attempt and what the queue is told, \<open>finalize\<close>
  or \<open>requeue\<close> with the delay.
\<close>

definition settle :: "job \<Rightarrow> world \<Rightarrow> settled \<times> world" where
  "settle j w =
     (case processor j w of
        (Inr result, w1) \<Rightarrow>
          (Done result, log_effect (Finalized (job_id j) True) (on_completed j w1))
      | (Inl error, w1) \<Rightarrow>
          (case retry_policy (opts j) (attemptsMade j) of
             Requeue d \<Rightarrow> (Again d, log_effect (Requeued (job_id j) d) (on_failed j error w1))
           | FinalizeFailed \<Rightarrow>
               (GaveUp error, log_effect (Finalized (job_id j) False) (on_failed j error w1))))"

text \<open>
  Modelled from the spec: the attempts made on one job, from its first claim to its
  terminal state, with the number of executions and the delays between them.
\<close>

record job_report =
  executions :: nat
  delays :: "nat list"
  final :: "js_error + processed"

text \<open>
  Modelled from the spec: claim, settle, and again after a requeue. The recursion ends
  because a requeue needs an attempt left.
\<close>

function run_job :: "job \<Rightarrow> world \<Rightarrow> job_report \<times> world" where
  "run_job j w =
     (case settle (claimed j)
             (log_effect (AttemptStarted (job_id j) (Suc (attemptsMade j))) w) of
        (Done result, w1) \<Rightarrow> (\<lparr> executions = 1, delays = [], final = Inr result \<rparr>, w1)
      | (GaveUp error, w1) \<Rightarrow> (\<lparr> executions = 1, delays = [], final = Inl error \<rparr>, w1)
      | (Again d, w1) \<Rightarrow>
          (case run_job (claimed j) w1 of
             (rep, w2) \<Rightarrow>
               (rep\<lparr>executions := Suc (executions rep), delays := d # delays rep\<rparr>, w2)))"
  by pat_completeness auto
termination
proof (relation "measure (\<lambda>(j, w). attempts (opts j) - attemptsMade j)")
  show "wf (measure (\<lambda>(j, w). attempts (opts j) - attemptsMade j))"
    by simp
next
  fix j :: job and w :: world and x :: settled and y :: world and d :: nat
  assume s: "(x, y) =
               settle (claimed j) (log_effect (AttemptStarted (job_id j) (Suc (attemptsMade j))) w)"
    and x: "x = Again d"
  from s x have "retry_policy (opts (claimed j)) (attemptsMade (claimed j)) \<noteq> FinalizeFailed"
    by (auto simp: settle_def split: prod.splits sum.splits decision.splits)
  then have "attemptsMade (claimed j) < attempts (opts (claimed j))"
    by (simp add: retry_policy_def split: if_splits)
  then show "((claimed j, y), (j, w)) \<in> measure (\<lambda>(j, w). attempts (opts j) - attemptsMade j)"
    by (simp add: claimed_def)
qed

declare run_job.simps [simp del]

section \<open>The worker pool\<close>

text \<open>
  Modelled from the spec: the worker pool and the queue it draws from (sections 4.1, 4.3
  and 5), both inside BullMQ. The executors share the queue; a step of the pool is one of:
  an executor claims the oldest waiting job, which needs a started pool with a free
  executor; an executor finishes the job it holds; the delay of a requeued job runs out.
  Which step comes next is the scheduler's choice, so an execution is a list of choices.
  The source fixes the pool's options: \<open>concurrency\<close> and \<open>autorun\<close>, the latter saying
  whether the pool starts by itself; the source never starts it by hand.
\<close>

datatype choice = ClaimNext | Finish nat | Promote nat

text \<open>The list without its element at position \<open>i\<close>.\<close>

definition without :: "nat \<Rightarrow> 'a list \<Rightarrow> 'a list" where
  "without i xs = take i xs @ drop (Suc i) xs"

text \<open>
  Modelled from the spec: one step of the pool, \<open>None\<close> when the choice cannot be taken.
  \<open>claimNext\<close> hands out the oldest waiting job and makes it active; finishing settles the
  job and moves it to completed, delayed or failed; a delayed job whose delay has run out
  waits again, behind the jobs already waiting.
\<close>

definition pool_step :: "worker_instance \<Rightarrow> choice \<Rightarrow> world \<Rightarrow> world option" where
  "pool_step k c w =
     (case c of
        ClaimNext \<Rightarrow>
          (case waiting w of
             [] \<Rightarrow> None
           | j # js \<Rightarrow>
               if autorun k \<and> length (active w) < concurrency k
               then Some (log_effect (AttemptStarted (job_id j) (Suc (attemptsMade j)))
                            (w\<lparr>waiting := js, active := active w @ [claimed j]\<rparr>))
               else None)
      | Finish i \<Rightarrow>
          (if i < length (active w)
           then (case settle (active w ! i) w of
                   (Done result, w1) \<Rightarrow>
                     Some (w1\<lparr>active := without i (active w1),
                              completed := completed w1 @ [active w ! i]\<rparr>)
                 | (Again d, w1) \<Rightarrow>
                     Some (w1\<lparr>active := without i (active w1),
                              delayed := delayed w1 @ [(d, active w ! i)]\<rparr>)
                 | (GaveUp error, w1) \<Rightarrow>
                     Some (w1\<lparr>active := without i (active w1),
                              failed := failed w1 @ [active w ! i]\<rparr>))
           else None)
      | Promote i \<Rightarrow>
          (if i < length (delayed w)
           then Some (w\<lparr>delayed := without i (delayed w),
                        waiting := waiting w @ [snd (delayed w ! i)]\<rparr>)
           else None))"

text \<open>Modelled from the spec: an execution, the steps of a list of choices in turn.\<close>

fun run_schedule :: "worker_instance \<Rightarrow> choice list \<Rightarrow> world \<Rightarrow> world option" where
  "run_schedule k [] w = Some w"
| "run_schedule k (c # cs) w =
     (case pool_step k c w of None \<Rightarrow> None | Some w1 \<Rightarrow> run_schedule k cs w1)"

text \<open>
  Modelled from the spec: the choices the scheduler has in a state of the pool.
\<close>

definition enabled :: "worker_instance \<Rightarrow> world \<Rightarrow> choice list" where
  "enabled k w =
     (if waiting w \<noteq> [] \<and> autorun k \<and> length (active w) < concurrency k
      then [ClaimNext] else []) @
     map Finish [0..<length (active w)] @ map Promote [0..<length (delayed w)]"

text \<open>
  The attempts a job has left, and a number that every step of the pool makes smaller:
  three for each attempt a job may still make (its claim, its finish and the promotion
  after a requeue), shifted by where the job stands in the cycle.
\<close>

definition remaining :: "job \<Rightarrow> nat" where
  "remaining j = attempts (opts j) - attemptsMade j"

definition pending_work :: "world \<Rightarrow> nat" where
  "pending_work w =
     sum_list (map (\<lambda>j. 3 * max 1 (remaining j)) (waiting w)) +
     sum_list (map (\<lambda>dj. 3 * max 1 (remaining (snd dj)) + 1) (delayed w)) +
     sum_list (map (\<lambda>j. 3 * remaining j + 2) (active w))"

text \<open>The jobs of the queue by their numbers: all of them, and those in a terminal state.\<close>

definition job_ids :: "world \<Rightarrow> nat multiset" where
  "job_ids w =
     mset (map job_id (waiting w @ map snd (delayed w) @ active w @ completed w @ failed w))"

definition terminal_ids :: "world \<Rightarrow> nat multiset" where
  "terminal_ids w = mset (map job_id (completed w @ failed w))"

section \<open>Payloads and the operations of the service\<close>

text \<open>
  The result payload of an item is present when its \<open>extractedData\<close> is an object with a
  \<open>hash\<close>, the error payload when it is an object with an \<open>error\<close>.
\<close>

fun has_key :: "string \<Rightarrow> json option \<Rightarrow> bool" where
  "has_key k (Some (JObject kvs)) = (k \<in> set (map fst kvs))"
| "has_key k _ = False"

definition result_present :: "file_row \<Rightarrow> bool" where
  "result_present r = has_key ''hash'' (extractedData r)"

definition error_present :: "file_row \<Rightarrow> bool" where
  "error_present r = has_key ''error'' (extractedData r)"

text \<open>In a terminal status exactly one payload is present: the one the status names.\<close>

definition payload_exclusive :: "file_row \<Rightarrow> bool" where
  "payload_exclusive r =
     ((status r = Processed \<longrightarrow> result_present r \<and> \<not> error_present r) \<and>
      (status r = Failed \<longrightarrow> error_present r \<and> \<not> result_present r))"

definition table_exclusive :: "world \<Rightarrow> bool" where
  "table_exclusive w = (\<forall>fid row. files w fid = Some row \<longrightarrow> payload_exclusive row)"

text \<open>
  The calls that reach the module of the worker, in any order: the two initializers, a job
  submission, an upload request, an attempt of the processor.
\<close>

datatype service_op =
    InitializeQueue
  | InitializeWorker
  | AddJob nat string
  | UploadRequest upload_request
  | Attempt job

definition do_op :: "service_op \<Rightarrow> world \<Rightarrow> world" where
  "do_op c w =
     (case c of
        InitializeQueue \<Rightarrow> snd (initializeQueue w)
      | InitializeWorker \<Rightarrow> snd (initializeWorker w)
      | AddJob fid p \<Rightarrow> snd (addFileProcessingJob fid p w)
      | UploadRequest req \<Rightarrow> snd (upload req w)
      | Attempt j \<Rightarrow> snd (processor j w))"

fun do_ops :: "service_op list \<Rightarrow> world \<Rightarrow> world" where
  "do_ops [] w = w"
| "do_ops (c # cs) w = do_ops cs (do_op c w)"

section \<open>Example inputs\<close>

text \<open>
  A database with two uploaded items, the stored file of the first holding the eleven bytes
  of \<open>hello world\<close>, the stored file of the second missing from the disk.
\<close>

definition no_such_file :: "string \<Rightarrow> js_error" where
  "no_such_file p = Error (''ENOENT: no such file or directory, open '' @ p)"

definition example_row :: file_row where
  "example_row =
     \<lparr> userId = 1, originalFilename = ''hello.txt'', storagePath = ''uploads/hello.txt'',
       title = Some ''Test File'', description = None, status = Uploaded,
       extractedData = None, uploadedAt = ''2024-01-01T00:00:00.000Z'' \<rparr>"

definition example_world :: world where
  "example_world =
     \<lparr> node_env = Some ''production'',
       disk = (\<lambda>p. if p = ''uploads/hello.txt'' then Inr (ascii_bytes ''hello world'')
                   else Inl (no_such_file p)),
       date_now = ''2024-01-01T00:00:02.000Z'',
       files = [1 \<mapsto> example_row,
                2 \<mapsto> example_row\<lparr>originalFilename := ''gone.txt'',
                                     storagePath := ''uploads/gone.txt''\<rparr>],
       next_file_id = 3,
       db_faults = [],
       console = [],
       fileQueue = None,
       worker = None,
       queues = Map.empty,
       workers = Map.empty,
       next_ref = 0,
       waiting = [],
       delayed = [],
       active = [],
       completed = [],
       failed = [],
       next_job_id = 1,
       redis_faults = [],
       effects = [] \<rparr>"

text \<open>The same world with a database that drops its second call.\<close>

definition flaky_world :: world where
  "flaky_world = example_world\<lparr>db_faults := [None, Some (Error ''Connection lost'')]\<rparr>"

text \<open>An upload by user 1, as multer and the \<open>auth\<close> middleware leave the request.\<close>

definition example_request :: upload_request where
  "example_request =
     \<lparr> req_user_id = 1,
       req_file = Some \<lparr> originalname = ''test.txt'',
                         path = ''uploads/file-1700000000000-42.txt'' \<rparr>,
       body_title = Some ''Test File'',
       body_description = Some ''Test file description'' \<rparr>"

text \<open>
  The example world under \<open>NODE_ENV=test\<close>, and the two worlds after the module is loaded and
  jobs are submitted: both items in production, the first item under test.
\<close>

definition test_world :: world where
  "test_world = example_world\<lparr>node_env := Some ''test''\<rparr>"

definition production_pool :: world where
  "production_pool =
     do_ops [AddJob 1 ''uploads/hello.txt'', AddJob 2 ''uploads/gone.txt'']
       (snd (module_load example_world))"

definition test_pool :: world where
  "test_pool = do_ops [AddJob 1 ''uploads/hello.txt''] (snd (module_load test_world))"

text \<open>
  The world under test after the job for the missing file is submitted; the production
  world with the job for the missing file submitted first, the one for the readable file
  second; and that world with a database that drops its sixth call.
\<close>

definition test_gone_pool :: world where
  "test_gone_pool = do_ops [AddJob 2 ''uploads/gone.txt''] (snd (module_load test_world))"

definition gone_first_pool :: world where
  "gone_first_pool =
     do_ops [AddJob 2 ''uploads/gone.txt'', AddJob 1 ''uploads/hello.txt'']
       (snd (module_load example_world))"

definition lossy_pool :: world where
  "lossy_pool =
     gone_first_pool\<lparr>db_faults := [None, None, None, None, None, Some (Error ''Connection lost'')]\<rparr>"

definition hello_job :: job where
  "hello_job =
     \<lparr> job_id = 1, job_name = ''processFile'',
       data = \<lparr> fileId = 1, filePath = ''uploads/hello.txt'' \<rparr>,
       attemptsMade = 0, opts = default_job_options \<rparr>"

definition gone_job :: job where
  "gone_job =
     \<lparr> job_id = 2, job_name = ''processFile'',
       data = \<lparr> fileId = 2, filePath = ''uploads/gone.txt'' \<rparr>,
       attemptsMade = 0, opts = default_job_options \<rparr>"

section \<open>The digest and the size of a processed file\<close>

text \<open>The two tables of constants hold the bits of the roots they are defined by.\<close>

lemma round_constants_cube_roots: "list_all cube_root_bits round_constants"
  by (simp add: round_constants_def cube_root_bits_def cube_root_def Let_def)

lemma initial_hash_square_roots: "list_all square_root_bits initial_hash"
  by (simp add: initial_hash_def square_root_bits_def square_root_def Let_def)


text \<open>The digest of the eleven bytes \<open>hello world\<close>, computed by the definition above.\<close>

lemma sha256_hex_hello_world:
  "sha256_hex (ascii_bytes ''hello world'') =
     ''b94d27b9934d3e08a52e52d7da7dabfac484efe37a5380ee9088f7ace2efcde9''"
  by code_simp

lemma length_hello_world: "length (ascii_bytes ''hello world'') = 11"
  by (simp add: ascii_bytes_def)

text \<open>
  C1. Whatever bytes \<open>B\<close> the path resolves to, \<open>processFile\<close> succeeds and returns a result
  whose \<open>hash\<close> is the hexadecimal SHA-256 of \<open>B\<close> and whose \<open>size\<close> is the number of bytes of
  \<open>B\<close>; for the content \<open>hello world\<close> the size is 11 and the hash is the SHA-256 of those
  eleven bytes.
\<close>

theorem processFile_digest_and_size:
  assumes "disk w p = Inr B"
  shows "(\<exists>r. processFile w p = Inr r \<and> hash r = sha256_hex B \<and> size_bytes r = length B) \<and>
         (B = ascii_bytes ''hello world'' \<longrightarrow>
            (\<exists>r. processFile w p = Inr r \<and> size_bytes r = 11 \<and>
                 hash r = ''b94d27b9934d3e08a52e52d7da7dabfac484efe37a5380ee9088f7ace2efcde9''))"
  using assms by (simp add: processFile_def sha256_hex_hello_world length_hello_world)

theorem processFile_digest_and_size_witness:
  "\<exists>r. processFile example_world ''uploads/hello.txt'' = Inr r \<and> size_bytes r = 11 \<and>
       hash r = ''b94d27b9934d3e08a52e52d7da7dabfac484efe37a5380ee9088f7ace2efcde9''"
  using processFile_digest_and_size
          [of example_world "''uploads/hello.txt''" "ascii_bytes ''hello world''"]
  by (simp add: example_world_def)

text \<open>
  C7. The digest is a function of the bytes alone: two runs of \<open>processFile\<close> that read the
  same bytes, at any two paths, times and environments, return the same \<open>hash\<close>.
\<close>

theorem digest_deterministic:
  assumes "disk w1 p1 = Inr B" and "disk w2 p2 = Inr B"
  shows "\<exists>r1 r2. processFile w1 p1 = Inr r1 \<and> processFile w2 p2 = Inr r2 \<and> hash r1 = hash r2"
  using assms by (simp add: processFile_def)

theorem digest_deterministic_witness:
  "\<exists>r1 r2. processFile example_world ''uploads/hello.txt'' = Inr r1 \<and>
           processFile (example_world\<lparr>date_now := ''2024-06-30T12:00:00.000Z'',
                                      node_env := Some ''test''\<rparr>) ''uploads/hello.txt'' = Inr r2 \<and>
           hash r1 = hash r2"
  using digest_deterministic
          [of example_world "''uploads/hello.txt''" "ascii_bytes ''hello world''"
              "example_world\<lparr>date_now := ''2024-06-30T12:00:00.000Z'', node_env := Some ''test''\<rparr>"
              "''uploads/hello.txt''"]
  by (simp add: example_world_def)

section \<open>One attempt of the processor\<close>

text \<open>
  The two runs of the processor when the row exists and the database answers every call:
  the file is read, or it is not.
\<close>

lemma file_update_ok:
  "files w fid = Some row \<Longrightarrow> db_faults w = [] \<Longrightarrow>
   file_update fid change w =
     (Inr (change row),
      w\<lparr>files := (files w)(fid \<mapsto> change row),
        effects := effects w @ [RowUpdated fid (status (change row))]\<rparr>)"
  by (simp add: file_update_def next_db_fault_def log_effect_def)

lemma processor_readable:
  assumes "files w (fileId (data j)) = Some row" and "db_faults w = []"
    and "disk w (filePath (data j)) = Inr B"
  shows "processor j w =
     (Inr \<lparr> hash = sha256_hex B, size_bytes = length B, processedAt = date_now w \<rparr>,
      w\<lparr>files := (files w)(fileId (data j) \<mapsto>
               row\<lparr>status := Processed,
                   extractedData := Some (result_json
                     \<lparr> hash = sha256_hex B, size_bytes = length B, processedAt = date_now w \<rparr>)\<rparr>),
        effects := effects w @ [RowUpdated (fileId (data j)) Processing,
                                RowUpdated (fileId (data j)) Processed]\<rparr>)"
  using assms
  by (simp add: processor_def processor_try_def mark_processing_def mark_processed_def
      file_update_ok processFile_def)

lemma processor_unreadable:
  assumes "files w (fileId (data j)) = Some row" and "db_faults w = []"
    and "disk w (filePath (data j)) = Inl e"
  shows "processor j w =
     (Inl (Error (''File processing failed: '' @ message e)),
      w\<lparr>files := (files w)(fileId (data j) \<mapsto>
               row\<lparr>status := Failed,
                   extractedData := Some (error_json
                     (Error (''File processing failed: '' @ message e)))\<rparr>),
        effects := effects w @ [RowUpdated (fileId (data j)) Processing,
                                RowUpdated (fileId (data j)) Failed],
        console := console w @ [JobFailedLine (job_id j) (fileId (data j))
                     (Error (''File processing failed: '' @ message e))]\<rparr>)"
  using assms
  by (simp add: processor_def processor_try_def processor_catch_def mark_processing_def
      mark_failed_def file_update_ok processFile_def console_write_def)

text \<open>
  C8. When the content at the job's path cannot be read, \<open>processFile\<close> fails with an error
  whose message is not empty (the fixed prefix, then the message of the read error); and
  when the row exists and the database answers, the attempt fails with that error and
  leaves the row \<open>failed\<close> with \<open>{ error: message }\<close> as its payload, the message being
  the same non-empty one. This holds for each attempt, the last one included.
\<close>

theorem unreadable_content_message:
  assumes "disk w (filePath (data j)) = Inl e"
  shows "\<exists>m. processFile w (filePath (data j)) = Inl (Error m) \<and> m \<noteq> [] \<and>
           (\<forall>row. files w (fileId (data j)) = Some row \<and> db_faults w = [] \<longrightarrow>
              fst (processor j w) = Inl (Error m) \<and>
              files (snd (processor j w)) (fileId (data j)) =
                Some (row\<lparr>status := Failed,
                          extractedData := Some (JObject [(''error'', JString m)])\<rparr>))"
  using assms
  by (auto simp: processFile_def processor_unreadable error_json_def)

theorem unreadable_content_message_witness:
  "\<exists>m. processFile example_world ''uploads/gone.txt'' = Inl (Error m) \<and> m \<noteq> [] \<and>
       map_option extractedData (files (snd (processor gone_job example_world)) 2) =
         Some (Some (JObject [(''error'', JString m)]))"
proof -
  have d: "disk example_world (filePath (data gone_job)) = Inl (no_such_file ''uploads/gone.txt'')"
    by (simp add: example_world_def gone_job_def)
  have r: "files example_world (fileId (data gone_job)) =
             Some (example_row\<lparr>originalFilename := ''gone.txt'', storagePath := ''uploads/gone.txt''\<rparr>)
           \<and> db_faults example_world = []"
    by (simp add: example_world_def gone_job_def)
  from unreadable_content_message [OF d] r show ?thesis
    by (auto simp: gone_job_def)
qed


section \<open>The failure path of the processor\<close>

lemma file_update_cases:
  assumes "file_update fid change w = (r, w')"
  shows "(\<exists>row. r = Inr (change row) \<and> files w fid = Some row \<and>
               files w' = (files w)(fid \<mapsto> change row) \<and>
               effects w' = effects w @ [RowUpdated fid (status (change row))]) \<or>
         (\<exists>e. r = Inl e \<and> files w' = files w \<and>
              effects w' = effects w @ [RowUpdateRejected fid])"
  using assms
  by (auto simp: file_update_def next_db_fault_def log_effect_def
           split: list.splits option.splits)

lemma file_update_console:
  "file_update fid change w = (r, w') \<Longrightarrow> console w' = console w"
  by (auto simp: file_update_def next_db_fault_def log_effect_def
           split: list.splits option.splits)

text \<open>The definitions a concrete run unfolds.\<close>

lemmas run_defs =
  processor_def processor_try_def processor_catch_def mark_processing_def mark_processed_def
  mark_failed_def file_update_def next_db_fault_def log_effect_def console_write_def
  processFile_def

lemmas example_defs =
  example_world_def flaky_world_def example_row_def hello_job_def gone_job_def no_such_file_def
  claimed_def

section \<open>Terminal statuses under retries\<close>

text \<open>
  C2, as stated, fails. With a database that drops the second call, the first attempt on
  the readable file reads it, loses the write of \<open>processed\<close> and records \<open>failed\<close>; the
  retry then moves the same item to \<open>processed\<close>.
\<close>

theorem terminal_status_overwritten_counterexample:
  "map_option status (files (snd (processor (claimed hello_job) flaky_world)) 1) = Some Failed \<and>
   map_option status
     (files (snd (processor (claimed (claimed hello_job))
                    (snd (processor (claimed hello_job) flaky_world)))) 1) = Some Processed"
  by (simp add: run_defs example_defs)

text \<open>
  C2, amended. No write of the worker looks at the status it replaces. Whatever status and
  payload the row has, terminal or not, an attempt during which the database answers
  leaves it \<open>processed\<close> with the result of this attempt when the file reads, and \<open>failed\<close>
  with the error of this attempt when it does not.
\<close>

theorem attempt_overwrites_status:
  assumes "files w (fileId (data j)) = Some row" and "db_faults w = []"
  shows "\<exists>row'. files (snd (processor j w)) (fileId (data j)) = Some row' \<and>
           (case disk w (filePath (data j)) of
              Inr B \<Rightarrow>
                status row' = Processed \<and>
                extractedData row' =
                  Some (result_json \<lparr> hash = sha256_hex B, size_bytes = length B,
                                      processedAt = date_now w \<rparr>)
            | Inl e \<Rightarrow>
                status row' = Failed \<and>
                extractedData row' =
                  Some (error_json (Error (''File processing failed: '' @ message e))))"
proof (cases "disk w (filePath (data j))")
  case (Inl e)
  from processor_unreadable [OF assms Inl] show ?thesis
    by (simp add: Inl)
next
  case (Inr B)
  from processor_readable [OF assms Inr] show ?thesis
    by (simp add: Inr)
qed

theorem attempt_overwrites_status_witness:
  "\<exists>row'. files (snd (processor hello_job
                        (example_world\<lparr>files := (files example_world)
                           (1 \<mapsto> example_row\<lparr>status := Failed,
                                  extractedData := Some (error_json (Error ''Connection lost''))\<rparr>)\<rparr>))) 1
             = Some row' \<and>
          status row' = Processed \<and>
          extractedData row' =
            Some (result_json \<lparr> hash = sha256_hex (ascii_bytes ''hello world''),
                                size_bytes = length (ascii_bytes ''hello world''),
                                processedAt = ''2024-01-01T00:00:02.000Z'' \<rparr>)"
proof -
  let ?w = "example_world\<lparr>files := (files example_world)
                           (1 \<mapsto> example_row\<lparr>status := Failed,
                                  extractedData := Some (error_json (Error ''Connection lost''))\<rparr>)\<rparr>"
  have f: "files ?w (fileId (data hello_job)) =
             Some (example_row\<lparr>status := Failed,
                                extractedData := Some (error_json (Error ''Connection lost''))\<rparr>)"
    by (simp add: hello_job_def)
  have q: "db_faults ?w = []"
    by (simp add: example_world_def)
  have d: "disk ?w (filePath (data hello_job)) = Inr (ascii_bytes ''hello world'')"
    by (simp add: example_world_def hello_job_def)
  from attempt_overwrites_status [OF f q] d show ?thesis
    by (simp add: hello_job_def example_world_def)
qed


section \<open>Result and error payloads\<close>

lemma file_update_exclusive:
  assumes "file_update fid change w = (r, w')" and "table_exclusive w"
    and "\<And>row. payload_exclusive (change row)"
  shows "table_exclusive w'"
  using file_update_cases [OF assms(1)] assms(2,3)
  by (auto simp: table_exclusive_def split: if_splits)

lemma table_exclusive_console [simp]:
  "table_exclusive (console_write l w) = table_exclusive w"
  by (simp add: table_exclusive_def console_write_def)

lemma mark_processing_exclusive:
  "mark_processing j w = (r, w') \<Longrightarrow> table_exclusive w \<Longrightarrow> table_exclusive w'"
  unfolding mark_processing_def
  by (erule file_update_exclusive) (auto simp: payload_exclusive_def)

lemma mark_processed_exclusive:
  "mark_processed j res w = (r, w') \<Longrightarrow> table_exclusive w \<Longrightarrow> table_exclusive w'"
  unfolding mark_processed_def
  by (erule file_update_exclusive)
     (auto simp: payload_exclusive_def result_present_def error_present_def result_json_def)

lemma mark_failed_exclusive:
  "mark_failed j e w = (r, w') \<Longrightarrow> table_exclusive w \<Longrightarrow> table_exclusive w'"
  unfolding mark_failed_def
  by (erule file_update_exclusive)
     (auto simp: payload_exclusive_def result_present_def error_present_def error_json_def)

lemma processor_exclusive:
  assumes "table_exclusive w"
  shows "table_exclusive (snd (processor j w))"
proof -
  have t: "table_exclusive (snd (processor_try j w))"
    using assms
    by (auto simp: processor_try_def split: prod.splits sum.splits
             dest: mark_processing_exclusive mark_processed_exclusive)
  have c: "\<And>e w1. table_exclusive w1 \<Longrightarrow> table_exclusive (snd (processor_catch j e w1))"
    by (auto simp: processor_catch_def split: prod.splits sum.splits
             dest!: mark_failed_exclusive)
  show ?thesis
    using t c by (auto simp: processor_def split: prod.splits sum.splits)
qed

lemma file_create_files:
  "file_create row w = (r, w') \<Longrightarrow>
   files w' = files w \<or> files w' = (files w)(next_file_id w \<mapsto> row)"
  by (auto simp: file_create_def next_db_fault_def log_effect_def Let_def
           split: list.splits option.splits)

lemma file_create_exclusive:
  assumes "file_create row w = (r, w')" and "table_exclusive w" and "payload_exclusive row"
  shows "table_exclusive w'"
  using file_create_files [OF assms(1)] assms(2,3)
  by (auto simp: table_exclusive_def split: if_splits)

lemma addFileProcessingJob_files:
  "files (snd (addFileProcessingJob fid p w)) = files w"
  by (auto simp: addFileProcessingJob_def initializeQueue_def new_Queue_def queue_add_def
                 next_redis_fault_def log_effect_def Let_def
           split: option.splits list.splits prod.splits)

lemma upload_exclusive:
  assumes "table_exclusive w"
  shows "table_exclusive (snd (upload req w))"
proof (cases "req_file req")
  case None
  with assms show ?thesis by (simp add: upload_def)
next
  case (Some f)
  let ?row = "\<lparr> userId = req_user_id req, originalFilename = originalname f,
                 storagePath = path f, title = body_title req,
                 description = body_description req, status = Uploaded,
                 extractedData = None, uploadedAt = date_now w \<rparr>"
  obtain r w1 where c: "file_create ?row w = (r, w1)"
    by (cases "file_create ?row w")
  have t1: "table_exclusive w1"
    using file_create_exclusive [OF c assms] by (simp add: payload_exclusive_def)
  show ?thesis
  proof (cases r)
    case (Inl e)
    with Some c t1 show ?thesis
      by (simp add: upload_def upload_error_def)
  next
    case (Inr created)
    obtain fid frow where cr: "created = (fid, frow)"
      by (cases created)
    have "table_exclusive (snd (addFileProcessingJob fid (path f) w1))"
      using t1 addFileProcessingJob_files [of fid "path f" w1]
      by (simp add: table_exclusive_def)
    with Some c Inr cr show ?thesis
      by (cases "addFileProcessingJob fid (path f) w1"; cases "fst (addFileProcessingJob fid (path f) w1)")
         (auto simp: upload_def upload_error_def)
  qed
qed

lemma do_op_exclusive:
  assumes "table_exclusive w"
  shows "table_exclusive (do_op c w)"
proof (cases c)
  case InitializeQueue
  with assms show ?thesis
    by (simp add: do_op_def table_exclusive_def initializeQueue_def new_Queue_def
             split: option.splits)
next
  case InitializeWorker
  with assms show ?thesis
    by (simp add: do_op_def table_exclusive_def initializeWorker_def new_Worker_def
             split: option.splits)
next
  case (AddJob fid p)
  with assms addFileProcessingJob_files [of fid p w] show ?thesis
    by (simp add: do_op_def table_exclusive_def)
next
  case (UploadRequest req)
  with upload_exclusive [OF assms] show ?thesis
    by (simp add: do_op_def)
next
  case (Attempt j)
  with processor_exclusive [OF assms] show ?thesis
    by (simp add: do_op_def)
qed

lemma do_ops_exclusive:
  "table_exclusive w \<Longrightarrow> table_exclusive (do_ops cs w)"
  by (induction cs arbitrary: w) (simp_all add: do_op_exclusive)

text \<open>
  C5, amended. From a table in which every \<open>processed\<close> row carries a result and no error,
  and every \<open>failed\<close> row an error and no result, each of the three status writes of the
  worker, a whole attempt, and any sequence of uploads, submissions and attempts lead to
  such a table again. The write of \<open>processing\<close> changes the status alone: the row keeps
  the payload it had, none on the first attempt of an uploaded item, the payload of the
  previous attempt on a retry.
\<close>

theorem terminal_payload_exclusive:
  assumes "table_exclusive w"
  shows "table_exclusive (snd (mark_processing j w)) \<and>
         table_exclusive (snd (mark_processed j res w)) \<and>
         table_exclusive (snd (mark_failed j e w)) \<and>
         table_exclusive (snd (processor j w)) \<and>
         table_exclusive (do_ops cs w) \<and>
         (\<forall>row'. fst (mark_processing j w) = Inr row' \<longrightarrow>
            (\<exists>row. files w (fileId (data j)) = Some row \<and>
                   row' = row\<lparr>status := Processing\<rparr> \<and>
                   files (snd (mark_processing j w)) (fileId (data j)) = Some row'))"
proof -
  have 1: "table_exclusive (snd (mark_processing j w))"
    using mark_processing_exclusive [of j w] assms by (cases "mark_processing j w") simp
  have 2: "table_exclusive (snd (mark_processed j res w))"
    using mark_processed_exclusive [of j res w] assms by (cases "mark_processed j res w") simp
  have 3: "table_exclusive (snd (mark_failed j e w))"
    using mark_failed_exclusive [of j e w] assms by (cases "mark_failed j e w") simp
  have 5: "\<forall>row'. fst (mark_processing j w) = Inr row' \<longrightarrow>
            (\<exists>row. files w (fileId (data j)) = Some row \<and>
                   row' = row\<lparr>status := Processing\<rparr> \<and>
                   files (snd (mark_processing j w)) (fileId (data j)) = Some row')"
  proof (intro allI impI)
    fix row'
    assume a: "fst (mark_processing j w) = Inr row'"
    obtain r w' where m: "file_update (fileId (data j)) (\<lambda>r. r\<lparr>status := Processing\<rparr>) w = (r, w')"
      by (cases "file_update (fileId (data j)) (\<lambda>r. r\<lparr>status := Processing\<rparr>) w")
    show "\<exists>row. files w (fileId (data j)) = Some row \<and>
                   row' = row\<lparr>status := Processing\<rparr> \<and>
                   files (snd (mark_processing j w)) (fileId (data j)) = Some row'"
      using file_update_cases [OF m] a m
      by (auto simp: mark_processing_def)
  qed
  from 1 2 3 5 processor_exclusive [OF assms] do_ops_exclusive [OF assms] show ?thesis
    by blast
qed

text \<open>
  C5, as stated, fails on its second half: after a failed first attempt, the first write of
  the retry leaves the row \<open>processing\<close> with the error payload still present.
\<close>

theorem processing_with_error_payload_counterexample:
  "map_option (\<lambda>r. (status r, error_present r))
     (files (snd (mark_processing (claimed (claimed gone_job))
                    (snd (processor (claimed gone_job) example_world)))) 2) =
   Some (Processing, True)"
  by (simp add: run_defs example_defs error_present_def error_json_def)

lemma example_world_exclusive: "table_exclusive example_world"
  by (auto simp: table_exclusive_def payload_exclusive_def example_world_def example_row_def
           split: if_splits)

theorem terminal_payload_exclusive_witness:
  "table_exclusive example_world \<and>
   table_exclusive (snd (processor gone_job example_world)) \<and>
   map_option (\<lambda>r. (status r, error_present r, result_present r))
     (files (snd (processor gone_job example_world)) 2) = Some (Failed, True, False) \<and>
   map_option (\<lambda>r. (status r, error_present r, result_present r))
     (files (snd (processor hello_job example_world)) 1) = Some (Processed, False, True)"
proof -
  have "table_exclusive (snd (processor gone_job example_world))"
    using terminal_payload_exclusive [OF example_world_exclusive, of gone_job] by blast
  moreover have "map_option (\<lambda>r. (status r, error_present r, result_present r))
     (files (snd (processor gone_job example_world)) 2) = Some (Failed, True, False)"
    by (simp add: run_defs example_defs error_present_def result_present_def error_json_def)
  moreover have "map_option (\<lambda>r. (status r, error_present r, result_present r))
     (files (snd (processor hello_job example_world)) 1) = Some (Processed, False, True)"
    by (simp add: run_defs example_defs error_present_def result_present_def result_json_def)
  ultimately show ?thesis
    using example_world_exclusive by blast
qed


section \<open>The module's queue and worker\<close>

lemma file_update_module:
  "file_update fid change w = (r, w') \<Longrightarrow>
   fileQueue w' = fileQueue w \<and> worker w' = worker w \<and> queues w' = queues w \<and>
   workers w' = workers w"
  by (auto simp: file_update_def next_db_fault_def log_effect_def
           split: list.splits option.splits)

lemma processor_module:
  "fileQueue (snd (processor j w)) = fileQueue w \<and> worker (snd (processor j w)) = worker w \<and>
   queues (snd (processor j w)) = queues w \<and> workers (snd (processor j w)) = workers w"
  by (auto simp: processor_def processor_try_def processor_catch_def mark_processing_def
                 mark_processed_def mark_failed_def console_write_def
           split: prod.splits sum.splits dest!: file_update_module)

lemma initializeQueue_set:
  "fileQueue w = Some q \<Longrightarrow> initializeQueue w = (q, w)"
  by (simp add: initializeQueue_def)

lemma initializeWorker_set:
  "worker w = Some k \<Longrightarrow> initializeWorker w = (k, w)"
  by (simp add: initializeWorker_def)

lemma initializeQueue_sets:
  "fileQueue (snd (initializeQueue w)) = Some (fst (initializeQueue w)) \<and>
   worker (snd (initializeQueue w)) = worker w"
  by (simp add: initializeQueue_def new_Queue_def split: option.splits)

lemma initializeWorker_sets:
  "worker (snd (initializeWorker w)) = Some (fst (initializeWorker w)) \<and>
   fileQueue (snd (initializeWorker w)) = fileQueue w"
  by (simp add: initializeWorker_def new_Worker_def split: option.splits)

lemma queue_add_module:
  "queue_add q n d w = (r, w') \<Longrightarrow> fileQueue w' = fileQueue w \<and> worker w' = worker w"
  by (auto simp: queue_add_def next_redis_fault_def log_effect_def Let_def
           split: list.splits option.splits)

lemma addFileProcessingJob_module:
  assumes "fileQueue w = Some q" and "worker w = Some k"
  shows "fileQueue (snd (addFileProcessingJob fid p w)) = Some q \<and>
         worker (snd (addFileProcessingJob fid p w)) = Some k"
  using assms queue_add_module [of q "''processFile''" "\<lparr>fileId = fid, filePath = p\<rparr>" w]
  by (cases "queue_add q ''processFile'' \<lparr>fileId = fid, filePath = p\<rparr> w")
     (simp add: addFileProcessingJob_def initializeQueue_set)

lemma file_create_module:
  "file_create row w = (r, w') \<Longrightarrow> fileQueue w' = fileQueue w \<and> worker w' = worker w"
  by (auto simp: file_create_def next_db_fault_def log_effect_def Let_def
           split: list.splits option.splits)

lemma upload_module:
  assumes "fileQueue w = Some q" and "worker w = Some k"
  shows "fileQueue (snd (upload req w)) = Some q \<and> worker (snd (upload req w)) = Some k"
proof (cases "req_file req")
  case None
  then show ?thesis using assms by (simp add: upload_def)
next
  case (Some f)
  let ?row = "\<lparr> userId = req_user_id req, originalFilename = originalname f,
                 storagePath = path f, title = body_title req,
                 description = body_description req, status = Uploaded,
                 extractedData = None, uploadedAt = date_now w \<rparr>"
  obtain r w1 where c: "file_create ?row w = (r, w1)"
    by (cases "file_create ?row w")
  from file_create_module [OF c] assms
  have m1: "fileQueue w1 = Some q" "worker w1 = Some k"
    by simp_all
  show ?thesis
  proof (cases r)
    case (Inl e)
    then show ?thesis
      using Some c m1 by (simp add: upload_def upload_error_def console_write_def)
  next
    case (Inr created)
    obtain fid frow where cr: "created = (fid, frow)"
      by (cases created)
    obtain r2 w2 where a: "addFileProcessingJob fid (path f) w1 = (r2, w2)"
      by (cases "addFileProcessingJob fid (path f) w1")
    from addFileProcessingJob_module [OF m1, of fid "path f"] a
    have m2: "fileQueue w2 = Some q" "worker w2 = Some k"
      by simp_all
    show ?thesis
      using Some c Inr cr a m2
      by (cases r2) (simp_all add: upload_def upload_error_def console_write_def)
  qed
qed

lemma do_op_module:
  assumes "fileQueue w = Some q" and "worker w = Some k"
  shows "fileQueue (do_op c w) = Some q \<and> worker (do_op c w) = Some k"
proof (cases c)
  case InitializeQueue
  then show ?thesis using assms by (simp add: do_op_def initializeQueue_set)
next
  case InitializeWorker
  then show ?thesis using assms by (simp add: do_op_def initializeWorker_set)
next
  case (AddJob fid p)
  then show ?thesis using addFileProcessingJob_module [OF assms] by (simp add: do_op_def)
next
  case (UploadRequest req)
  then show ?thesis using upload_module [OF assms] by (simp add: do_op_def)
next
  case (Attempt j)
  then show ?thesis using assms processor_module [of j w] by (simp add: do_op_def)
qed

lemma do_ops_module:
  "fileQueue w = Some q \<Longrightarrow> worker w = Some k \<Longrightarrow>
   fileQueue (do_ops cs w) = Some q \<and> worker (do_ops cs w) = Some k"
proof (induction cs arbitrary: w)
  case Nil
  then show ?case by simp
next
  case (Cons c cs)
  from do_op_module [OF Cons.prems, of c] Cons.IH [of "do_op c w"]
  show ?case by simp
qed

lemma module_load_sets:
  assumes "module_load w = ((q, k), w0)"
  shows "fileQueue w0 = Some q \<and> worker w0 = Some k"
proof -
  define w2 where "w2 = (if \<not> is_test w
                then (let (q, w1) = initializeQueue w;
                          (k, w2) = initializeWorker (w1\<lparr>fileQueue := Some q\<rparr>)
                      in w2\<lparr>worker := Some k\<rparr>)
                else w)"
  have l: "module_load w =
             ((fst (initializeQueue w2), fst (initializeWorker (snd (initializeQueue w2)))),
              snd (initializeWorker (snd (initializeQueue w2))))"
    by (simp add: module_load_def w2_def Let_def split: prod.splits)
  from l assms have q: "q = fst (initializeQueue w2)"
    and k: "k = fst (initializeWorker (snd (initializeQueue w2)))"
    and w0: "w0 = snd (initializeWorker (snd (initializeQueue w2)))"
    by simp_all
  show ?thesis
    using initializeQueue_sets [of w2] initializeWorker_sets [of "snd (initializeQueue w2)"]
    by (simp add: q k w0)
qed




section \<open>The upload route\<close>

lemma file_create_cases:
  assumes "file_create row w = (r, w1)"
  shows "(\<exists>e. r = Inl e \<and> effects w1 = effects w) \<or>
         (r = Inr (next_file_id w, row) \<and>
          files w1 = (files w)(next_file_id w \<mapsto> row) \<and>
          effects w1 = effects w @ [RowCreated (next_file_id w) (status row)] \<and>
          waiting w1 = waiting w)"
  using assms
  by (auto simp: file_create_def next_db_fault_def log_effect_def Let_def
           split: list.splits option.splits)

lemma initializeQueue_frame:
  "effects (snd (initializeQueue w)) = effects w \<and> files (snd (initializeQueue w)) = files w \<and>
   waiting (snd (initializeQueue w)) = waiting w"
  by (simp add: initializeQueue_def new_Queue_def split: option.splits)

lemma addFileProcessingJob_cases:
  assumes "addFileProcessingJob fid p w = (Inr jb, w2)"
  shows "effects w2 = effects w @ [JobAdded (fst (initializeQueue w)) (job_id jb) fid] \<and>
         files w2 = files w \<and> waiting w2 = waiting w @ [jb] \<and>
         data jb = \<lparr> fileId = fid, filePath = p \<rparr> \<and> attemptsMade jb = 0"
proof -
  obtain q w1 where i: "initializeQueue w = (q, w1)"
    by (cases "initializeQueue w")
  with initializeQueue_frame [of w]
  have f: "effects w1 = effects w" "files w1 = files w" "waiting w1 = waiting w"
    by simp_all
  from assms i have "queue_add q ''processFile'' \<lparr> fileId = fid, filePath = p \<rparr> w1 = (Inr jb, w2)"
    by (simp add: addFileProcessingJob_def)
  then show ?thesis
    using f i
    by (auto simp: queue_add_def next_redis_fault_def log_effect_def Let_def
             split: option.splits list.splits)
qed

text \<open>
  C9. When the upload route answers 201, what it did to the database and the queue is,
  in this order and nothing else: create the row of the item with status \<open>uploaded\<close>, then
  add the job that names this row and the stored file. The row is in the table with
  status \<open>uploaded\<close>, the job is the last one waiting, and the response reports the id of
  the row and the status \<open>uploaded\<close>.
\<close>

theorem upload_creates_before_enqueue:
  assumes "upload req w = (Response 201 b, w')"
  shows "\<exists>f fid q jb row.
           req_file req = Some f \<and>
           effects w' = effects w @ [RowCreated fid Uploaded, JobAdded q (job_id jb) fid] \<and>
           files w' fid = Some row \<and> status row = Uploaded \<and> storagePath row = path f \<and>
           waiting w' = waiting w @ [jb] \<and>
           data jb = \<lparr> fileId = fid, filePath = path f \<rparr> \<and>
           b = JObject [(''id'', JNumber fid), (''status'', JString ''uploaded''),
                        (''message'',
                         JString ''File uploaded successfully and queued for processing'')]"
proof (cases "req_file req")
  case None
  with assms show ?thesis by (simp add: upload_def)
next
  case (Some f)
  let ?row = "\<lparr> userId = req_user_id req, originalFilename = originalname f,
                 storagePath = path f, title = body_title req,
                 description = body_description req, status = Uploaded,
                 extractedData = None, uploadedAt = date_now w \<rparr>"
  obtain r w1 where c: "file_create ?row w = (r, w1)"
    by (cases "file_create ?row w")
  show ?thesis
  proof (cases r)
    case (Inl e)
    with assms Some c show ?thesis
      by (simp add: upload_def upload_error_def)
  next
    case (Inr created)
    with file_create_cases [OF c]
    have cr: "created = (next_file_id w, ?row)"
      and w1: "files w1 = (files w)(next_file_id w \<mapsto> ?row)"
        "effects w1 = effects w @ [RowCreated (next_file_id w) Uploaded]"
        "waiting w1 = waiting w"
      by auto
    obtain r2 w2 where a: "addFileProcessingJob (next_file_id w) (path f) w1 = (r2, w2)"
      by (cases "addFileProcessingJob (next_file_id w) (path f) w1")
    show ?thesis
    proof (cases r2)
      case (Inl e)
      with assms Some c Inr cr a show ?thesis
        by (simp add: upload_def upload_error_def)
    next
      case r2: (Inr jb)
      from assms Some c Inr cr a r2
      have b: "b = JObject [(''id'', JNumber (next_file_id w)), (''status'', JString ''uploaded''),
                        (''message'',
                         JString ''File uploaded successfully and queued for processing'')]"
        and w': "w' = w2"
        by (simp_all add: upload_def status_text_def)
      from addFileProcessingJob_cases [OF a [unfolded r2]] w1 w' b Some
      show ?thesis
        by auto
    qed
  qed
qed


theorem upload_creates_before_enqueue_witness:
  "fst (upload example_request example_world) =
     Response 201 (JObject [(''id'', JNumber 3), (''status'', JString ''uploaded''),
                            (''message'',
                             JString ''File uploaded successfully and queued for processing'')]) \<and>
   (\<exists>q jb. effects (snd (upload example_request example_world)) =
             effects example_world @ [RowCreated 3 Uploaded, JobAdded q (job_id jb) 3] \<and>
           waiting (snd (upload example_request example_world)) = waiting example_world @ [jb] \<and>
           data jb = \<lparr> fileId = 3, filePath = ''uploads/file-1700000000000-42.txt'' \<rparr>)"
proof -
  let ?b = "JObject [(''id'', JNumber 3), (''status'', JString ''uploaded''),
                     (''message'',
                      JString ''File uploaded successfully and queued for processing'')]"
  have f: "fst (upload example_request example_world) = Response 201 ?b"
    by (simp add: upload_def file_create_def addFileProcessingJob_def initializeQueue_def
        new_Queue_def queue_add_def next_db_fault_def next_redis_fault_def log_effect_def
        status_text_def example_request_def example_world_def Let_def)
  then have u: "upload example_request example_world =
                  (Response 201 ?b, snd (upload example_request example_world))"
    by (simp add: prod_eq_iff)
  from upload_creates_before_enqueue [OF u] f show ?thesis
    by (auto simp: example_request_def)
qed

section \<open>Retries of a job whose file cannot be read\<close>

lemma file_update_disk:
  "file_update fid change w = (r, w') \<Longrightarrow> disk w' = disk w \<and> node_env w' = node_env w"
  by (auto simp: file_update_def next_db_fault_def log_effect_def
           split: list.splits option.splits)

lemma processor_disk:
  "disk (snd (processor j w)) = disk w \<and> node_env (snd (processor j w)) = node_env w"
  by (auto simp: processor_def processor_try_def processor_catch_def mark_processing_def
                 mark_processed_def mark_failed_def console_write_def
           split: prod.splits sum.splits dest!: file_update_disk)

lemma processor_fails_unreadable:
  assumes "disk w (filePath (data j)) = Inl e"
  shows "\<exists>err. fst (processor j w) = Inl err"
proof -
  have "\<exists>err w1. processor_try j w = (Inl err, w1)"
    using assms
    by (auto simp: processor_try_def mark_processing_def processFile_def
             split: prod.splits sum.splits dest!: file_update_disk)
  then show ?thesis
    by (auto simp: processor_def processor_catch_def split: prod.splits sum.splits)
qed

lemma settle_disk: "disk (snd (settle j w)) = disk w"
  using processor_disk [of j w]
  by (auto simp: settle_def on_completed_def on_failed_def log_effect_def console_write_def
           split: prod.splits sum.splits decision.splits)

lemma settle_unreadable:
  assumes "disk w (filePath (data j)) = Inl e"
  shows "(attemptsMade j < attempts (opts j) \<longrightarrow>
            fst (settle j w) = Again (computedDelay (opts j) (attemptsMade j)) \<and>
            (\<exists>es. effects (snd (settle j w)) = es @ [Requeued (job_id j) (computedDelay (opts j) (attemptsMade j))])) \<and>
         (\<not> attemptsMade j < attempts (opts j) \<longrightarrow>
            (\<exists>err. fst (settle j w) = GaveUp err) \<and>
            (\<exists>es. effects (snd (settle j w)) = es @ [Finalized (job_id j) False]))"
  using processor_fails_unreadable [OF assms]
  by (auto simp: settle_def retry_policy_def log_effect_def split: prod.splits sum.splits)

lemma claimed_simps [simp]:
  "opts (claimed j) = opts j" "data (claimed j) = data j" "job_id (claimed j) = job_id j"
  "attemptsMade (claimed j) = Suc (attemptsMade j)"
  by (simp_all add: claimed_def)

lemma run_job_unreadable:
  assumes "disk w (filePath (data j)) = Inl e" and "attemptsMade j < attempts (opts j)"
  shows "executions (fst (run_job j w)) = attempts (opts j) - attemptsMade j \<and>
         delays (fst (run_job j w)) =
           map (computedDelay (opts j)) [Suc (attemptsMade j)..<attempts (opts j)] \<and>
         (\<exists>err. final (fst (run_job j w)) = Inl err) \<and>
         (\<exists>es. effects (snd (run_job j w)) = es @ [Finalized (job_id j) False])"
  using assms
proof (induction "attempts (opts j) - attemptsMade j" arbitrary: j w)
  case 0
  then show ?case by simp
next
  case (Suc n)
  let ?w0 = "log_effect (AttemptStarted (job_id j) (Suc (attemptsMade j))) w"
  have d0: "disk ?w0 (filePath (data (claimed j))) = Inl e"
    using Suc.prems(1) by (simp add: log_effect_def)
  obtain r w1 where s: "settle (claimed j) ?w0 = (r, w1)"
    by (cases "settle (claimed j) ?w0")
  have d1: "disk w1 (filePath (data (claimed j))) = Inl e"
    using settle_disk [of "claimed j" ?w0] s d0 by simp
  show ?case
  proof (cases "Suc (attemptsMade j) < attempts (opts j)")
    case True
    with settle_unreadable [OF d0] s
    have r: "r = Again (computedDelay (opts j) (Suc (attemptsMade j)))"
      by simp
    have n: "n = attempts (opts (claimed j)) - attemptsMade (claimed j)"
      using Suc.hyps(2) by simp
    have lt: "attemptsMade (claimed j) < attempts (opts (claimed j))"
      using True by simp
    from Suc.hyps(1) [OF n d1 lt]
    have ih: "executions (fst (run_job (claimed j) w1)) = attempts (opts j) - Suc (attemptsMade j)"
      "delays (fst (run_job (claimed j) w1)) =
         map (computedDelay (opts j)) [Suc (Suc (attemptsMade j))..<attempts (opts j)]"
      "\<exists>err. final (fst (run_job (claimed j) w1)) = Inl err"
      "\<exists>es. effects (snd (run_job (claimed j) w1)) = es @ [Finalized (job_id j) False]"
      by simp_all
    have u: "run_job j w =
               ((fst (run_job (claimed j) w1))
                  \<lparr>executions := Suc (executions (fst (run_job (claimed j) w1))),
                   delays := computedDelay (opts j) (Suc (attemptsMade j))
                             # delays (fst (run_job (claimed j) w1))\<rparr>,
                snd (run_job (claimed j) w1))"
      by (subst run_job.simps) (simp add: s r split: prod.splits)
    show ?thesis
      using ih True by (simp add: u upt_conv_Cons)
  next
    case False
    with Suc.prems(2) have eq: "Suc (attemptsMade j) = attempts (opts j)"
      by simp
    from settle_unreadable [OF d0] s False
    obtain err es where r: "r = GaveUp err" and es: "effects w1 = es @ [Finalized (job_id j) False]"
      by auto
    have u: "run_job j w = (\<lparr> executions = 1, delays = [], final = Inl err \<rparr>, w1)"
      by (subst run_job.simps) (simp add: s r)
    show ?thesis
      using eq es by (simp add: u)
  qed
qed


lemma processor_unreadable':
  assumes "files w (fileId (data j)) = Some row" and "db_faults w = []"
    and "disk w (filePath (data j)) = Inl e"
  shows "fst (processor j w) = Inl (Error (''File processing failed: '' @ message e)) \<and>
         files (snd (processor j w)) =
           (files w)(fileId (data j) \<mapsto>
               row\<lparr>status := Failed,
                   extractedData := Some (error_json
                     (Error (''File processing failed: '' @ message e)))\<rparr>) \<and>
         db_faults (snd (processor j w)) = []"
  using assms
  by (simp add: processor_def processor_try_def processor_catch_def mark_processing_def
      mark_failed_def file_update_def next_db_fault_def log_effect_def processFile_def
      console_write_def)

lemma settle_unreadable_row:
  assumes "files w (fileId (data j)) = Some row" and "db_faults w = []"
    and "disk w (filePath (data j)) = Inl e"
  shows "files (snd (settle j w)) =
           (files w)(fileId (data j) \<mapsto>
               row\<lparr>status := Failed,
                   extractedData := Some (error_json
                     (Error (''File processing failed: '' @ message e)))\<rparr>) \<and>
         db_faults (snd (settle j w)) = [] \<and>
         (\<forall>err. fst (settle j w) = GaveUp err \<longrightarrow>
                err = Error (''File processing failed: '' @ message e))"
  using processor_unreadable' [OF assms]
  by (auto simp: settle_def on_failed_def log_effect_def console_write_def
           split: prod.splits sum.splits decision.splits)

lemma run_job_unreadable_row:
  assumes "disk w (filePath (data j)) = Inl e" and "attemptsMade j < attempts (opts j)"
    and "files w (fileId (data j)) = Some row" and "db_faults w = []"
  shows "final (fst (run_job j w)) = Inl (Error (''File processing failed: '' @ message e)) \<and>
         files (snd (run_job j w)) (fileId (data j)) =
           Some (row\<lparr>status := Failed,
                     extractedData := Some (error_json
                       (Error (''File processing failed: '' @ message e)))\<rparr>)"
  using assms
proof (induction "attempts (opts j) - attemptsMade j" arbitrary: j w row)
  case 0
  then show ?case by simp
next
  case (Suc n)
  let ?w0 = "log_effect (AttemptStarted (job_id j) (Suc (attemptsMade j))) w"
  let ?E = "Error (''File processing failed: '' @ message e)"
  let ?row = "row\<lparr>status := Failed, extractedData := Some (error_json ?E)\<rparr>"
  have d0: "disk ?w0 (filePath (data (claimed j))) = Inl e"
    and f0: "files ?w0 (fileId (data (claimed j))) = Some row"
    and q0: "db_faults ?w0 = []"
    using Suc.prems by (simp_all add: log_effect_def)
  obtain r w1 where s: "settle (claimed j) ?w0 = (r, w1)"
    by (cases "settle (claimed j) ?w0")
  have d1: "disk w1 (filePath (data (claimed j))) = Inl e"
    using settle_disk [of "claimed j" ?w0] s d0 by simp
  from settle_unreadable_row [OF f0 q0 d0] s
  have f1: "files w1 (fileId (data (claimed j))) = Some ?row"
    and q1: "db_faults w1 = []"
    and g: "\<forall>err. r = GaveUp err \<longrightarrow> err = ?E"
    by simp_all
  show ?case
  proof (cases "Suc (attemptsMade j) < attempts (opts j)")
    case True
    with settle_unreadable [OF d0] s
    have r: "r = Again (computedDelay (opts j) (Suc (attemptsMade j)))"
      by simp
    have n: "n = attempts (opts (claimed j)) - attemptsMade (claimed j)"
      using Suc.hyps(2) by simp
    have lt: "attemptsMade (claimed j) < attempts (opts (claimed j))"
      using True by simp
    from Suc.hyps(1) [OF n d1 lt f1 q1]
    have ih: "final (fst (run_job (claimed j) w1)) = Inl ?E"
      "files (snd (run_job (claimed j) w1)) (fileId (data j)) = Some ?row"
      by simp_all
    have u: "run_job j w =
               ((fst (run_job (claimed j) w1))
                  \<lparr>executions := Suc (executions (fst (run_job (claimed j) w1))),
                   delays := computedDelay (opts j) (Suc (attemptsMade j))
                             # delays (fst (run_job (claimed j) w1))\<rparr>,
                snd (run_job (claimed j) w1))"
      by (subst run_job.simps) (simp add: s r split: prod.splits)
    show ?thesis
      using ih by (simp add: u)
  next
    case False
    from settle_unreadable [OF d0] s False g
    have r: "r = GaveUp ?E"
      by auto
    have u: "run_job j w = (\<lparr> executions = 1, delays = [], final = Inl ?E \<rparr>, w1)"
      by (subst run_job.simps) (simp add: s r)
    show ?thesis
      using f1 by (simp add: u)
  qed
qed

lemma doubling_delays:
  assumes "0 < n"
  shows "map (computedDelay \<lparr> attempts = n, backoff_type = ''exponential'', backoff_delay = 1000 \<rparr>)
           [Suc 0..<n] = map (\<lambda>i. 1000 * 2 ^ i) [0..<n - 1]"
proof -
  from assms have "[Suc 0..<n] = map Suc [0..<n - 1]"
    by (simp add: map_Suc_upt)
  then show ?thesis
    by (simp add: computedDelay_def)
qed

lemma doubling_sorted: "sorted_wrt (<) (map (\<lambda>i. 1000 * 2 ^ i) [0..<m] :: nat list)"
proof -
  have "sorted_wrt (\<lambda>x y. (1000 :: nat) * 2 ^ x < 1000 * 2 ^ y) [0..<m]"
    by (rule sorted_wrt_mono_rel [where P = "(<)"]) simp_all
  then show ?thesis
    by (simp add: sorted_wrt_map)
qed

text \<open>
  A job taken with no attempt made yet, \<open>n\<close> attempts allowed and exponential backoff from
  1000, whose file never reads: \<open>n\<close> executions, the doubling delays between them, the job
  finalized as failed, and the row left \<open>failed\<close> when it exists and the database answers.
\<close>

lemma run_job_exhausts_attempts:
  assumes "disk w (filePath (data j)) = Inl e" and "attemptsMade j = 0"
    and "opts j = \<lparr> attempts = n, backoff_type = ''exponential'', backoff_delay = 1000 \<rparr>"
    and "0 < n"
  shows "executions (fst (run_job j w)) = n \<and>
         delays (fst (run_job j w)) = map (\<lambda>i. 1000 * 2 ^ i) [0..<n - 1] \<and>
         sorted_wrt (<) (delays (fst (run_job j w))) \<and>
         (n = 3 \<longrightarrow> delays (fst (run_job j w)) = [1000, 2000]) \<and>
         (\<exists>err. final (fst (run_job j w)) = Inl err) \<and>
         (\<exists>es. effects (snd (run_job j w)) = es @ [Finalized (job_id j) False]) \<and>
         (\<forall>row. files w (fileId (data j)) = Some row \<and> db_faults w = [] \<longrightarrow>
            final (fst (run_job j w)) = Inl (Error (''File processing failed: '' @ message e)) \<and>
            files (snd (run_job j w)) (fileId (data j)) =
              Some (row\<lparr>status := Failed,
                        extractedData := Some (error_json
                          (Error (''File processing failed: '' @ message e)))\<rparr>))"
proof -
  have lt: "attemptsMade j < attempts (opts j)"
    using assms(2,3,4) by simp
  from run_job_unreadable [OF assms(1) lt] assms(2,3)
  have ex: "executions (fst (run_job j w)) = n"
    and dl: "delays (fst (run_job j w)) =
               map (computedDelay \<lparr> attempts = n, backoff_type = ''exponential'',
                                     backoff_delay = 1000 \<rparr>) [Suc 0..<n]"
    and fin: "\<exists>err. final (fst (run_job j w)) = Inl err"
    and eff: "\<exists>es. effects (snd (run_job j w)) = es @ [Finalized (job_id j) False]"
    by simp_all
  have d: "delays (fst (run_job j w)) = map (\<lambda>i. 1000 * 2 ^ i) [0..<n - 1]"
    using dl doubling_delays [OF assms(4)] by simp
  have s: "sorted_wrt (<) (delays (fst (run_job j w)))"
    unfolding d by (rule doubling_sorted)
  have three: "n = 3 \<longrightarrow> delays (fst (run_job j w)) = [1000, 2000]"
    unfolding d by (simp add: upt_rec)
  have row: "\<forall>row. files w (fileId (data j)) = Some row \<and> db_faults w = [] \<longrightarrow>
            final (fst (run_job j w)) = Inl (Error (''File processing failed: '' @ message e)) \<and>
            files (snd (run_job j w)) (fileId (data j)) =
              Some (row\<lparr>status := Failed,
                        extractedData := Some (error_json
                          (Error (''File processing failed: '' @ message e)))\<rparr>)"
    using run_job_unreadable_row [OF assms(1) lt] by blast
  from ex d s three fin eff row show ?thesis
    by blast
qed

section \<open>Executions of the worker pool\<close>

lemma file_update_lists:
  "file_update fid change w = (r, w') \<Longrightarrow>
   waiting w' = waiting w \<and> delayed w' = delayed w \<and> active w' = active w \<and>
   completed w' = completed w \<and> failed w' = failed w"
  by (auto simp: file_update_def next_db_fault_def log_effect_def
           split: list.splits option.splits)

lemma processor_lists:
  "waiting (snd (processor j w)) = waiting w \<and> delayed (snd (processor j w)) = delayed w \<and>
   active (snd (processor j w)) = active w \<and> completed (snd (processor j w)) = completed w \<and>
   failed (snd (processor j w)) = failed w"
  by (auto simp: processor_def processor_try_def processor_catch_def mark_processing_def
                 mark_processed_def mark_failed_def console_write_def
           split: prod.splits sum.splits dest!: file_update_lists)

lemma settle_lists:
  assumes "settle j w = (r, w')"
  shows "waiting w' = waiting w \<and> delayed w' = delayed w \<and> active w' = active w \<and>
         completed w' = completed w \<and> failed w' = failed w"
  using assms processor_lists [of j w]
  by (auto simp: settle_def on_completed_def on_failed_def log_effect_def console_write_def
           split: prod.splits sum.splits decision.splits if_splits)

lemma settle_again:
  "settle j w = (Again d, w') \<Longrightarrow> attemptsMade j < attempts (opts j)"
  by (auto simp: settle_def retry_policy_def split: prod.splits sum.splits if_splits)

lemma pool_step_claim:
  assumes "pool_step k ClaimNext w = Some w'"
  shows "\<exists>j js. waiting w = j # js \<and> autorun k \<and> length (active w) < concurrency k \<and>
           waiting w' = js \<and> active w' = active w @ [claimed j] \<and> delayed w' = delayed w \<and>
           completed w' = completed w \<and> failed w' = failed w"
  using assms
  by (auto simp: pool_step_def log_effect_def split: list.splits if_splits)

lemma pool_step_finish:
  assumes "pool_step k (Finish i) w = Some w'"
  shows "i < length (active w) \<and> waiting w' = waiting w \<and> active w' = without i (active w) \<and>
         ((delayed w' = delayed w \<and> completed w' = completed w @ [active w ! i] \<and>
           failed w' = failed w) \<or>
          (\<exists>d. delayed w' = delayed w @ [(d, active w ! i)] \<and>
               attemptsMade (active w ! i) < attempts (opts (active w ! i)) \<and>
               completed w' = completed w \<and> failed w' = failed w) \<or>
          (delayed w' = delayed w \<and> completed w' = completed w \<and>
           failed w' = failed w @ [active w ! i]))"
proof -
  from assms have i: "i < length (active w)"
    by (auto simp: pool_step_def split: if_splits)
  obtain r w1 where s: "settle (active w ! i) w = (r, w1)"
    by (cases "settle (active w ! i) w")
  note l = settle_lists [OF s]
  show ?thesis
  proof (cases r)
    case (Done res)
    with assms i s l show ?thesis by (auto simp: pool_step_def)
  next
    case (Again d)
    with assms i s l settle_again [of "active w ! i" w d w1] show ?thesis
      by (auto simp: pool_step_def)
  next
    case (GaveUp err)
    with assms i s l show ?thesis by (auto simp: pool_step_def)
  qed
qed

lemma pool_step_promote:
  assumes "pool_step k (Promote i) w = Some w'"
  shows "i < length (delayed w) \<and> delayed w' = without i (delayed w) \<and>
         waiting w' = waiting w @ [snd (delayed w ! i)] \<and> active w' = active w \<and>
         completed w' = completed w \<and> failed w' = failed w"
  using assms by (auto simp: pool_step_def split: if_splits)

lemma length_without: "i < length xs \<Longrightarrow> Suc (length (without i xs)) = length xs"
  by (simp add: without_def)

lemma sum_list_without:
  "i < length xs \<Longrightarrow> sum_list (map f (without i xs)) + f (xs ! i) = sum_list (map f xs)"
  for f :: "'a \<Rightarrow> nat"
proof -
  assume "i < length xs"
  then have "xs = take i xs @ xs ! i # drop (Suc i) xs"
    by (rule id_take_nth_drop)
  then have "sum_list (map f xs) = sum_list (map f (take i xs @ xs ! i # drop (Suc i) xs))"
    by simp
  then show ?thesis
    by (simp add: without_def)
qed

lemma mset_without:
  "i < length xs \<Longrightarrow> mset (map f (without i xs)) + {#f (xs ! i)#} = mset (map f xs)"
proof -
  assume "i < length xs"
  then have "xs = take i xs @ xs ! i # drop (Suc i) xs"
    by (rule id_take_nth_drop)
  then have "mset (map f xs) = mset (map f (take i xs @ xs ! i # drop (Suc i) xs))"
    by simp
  then show ?thesis
    by (simp add: without_def)
qed

lemma step_cap:
  assumes "pool_step k c w = Some w'" and "length (active w) \<le> concurrency k"
  shows "length (active w') \<le> concurrency k"
proof (cases c)
  case ClaimNext
  with pool_step_claim assms show ?thesis by fastforce
next
  case (Finish i)
  with pool_step_finish [of k i w w'] assms length_without [of i "active w"] show ?thesis
    by auto
next
  case (Promote i)
  with pool_step_promote [of k i w w'] assms show ?thesis by auto
qed

lemma step_ids:
  assumes "pool_step k c w = Some w'"
  shows "job_ids w' = job_ids w"
proof (cases c)
  case ClaimNext
  with pool_step_claim assms show ?thesis
    by (fastforce simp: job_ids_def claimed_def)
next
  case (Finish i)
  with pool_step_finish [of k i w w'] assms mset_without [of i "active w" job_id]
  show ?thesis
    by (auto simp: job_ids_def)
next
  case (Promote i)
  with pool_step_promote [of k i w w'] assms
    mset_without [of i "delayed w" "\<lambda>dj. job_id (snd dj)"]
  show ?thesis
    by (auto simp: job_ids_def comp_def)
qed

lemma step_progress:
  assumes "pool_step k c w = Some w'"
  shows "pending_work w' < pending_work w"
proof (cases c)
  case ClaimNext
  with pool_step_claim assms
  obtain j js where "waiting w = j # js" "waiting w' = js" "active w' = active w @ [claimed j]"
    "delayed w' = delayed w"
    by blast
  then show ?thesis
    by (simp add: pending_work_def remaining_def claimed_def)
next
  case (Finish i)
  with pool_step_finish [of k i w w'] assms
  have i: "i < length (active w)" and w: "waiting w' = waiting w"
    and a: "active w' = without i (active w)"
    and d: "delayed w' = delayed w \<or>
            (\<exists>d. delayed w' = delayed w @ [(d, active w ! i)] \<and>
                 attemptsMade (active w ! i) < attempts (opts (active w ! i)))"
    by auto
  from sum_list_without [OF i, of "\<lambda>j. 3 * remaining j + 2"]
  have s: "sum_list (map (\<lambda>j. 3 * remaining j + 2) (active w')) + (3 * remaining (active w ! i) + 2)
           = sum_list (map (\<lambda>j. 3 * remaining j + 2) (active w))"
    by (simp add: a)
  from d show ?thesis
  proof
    assume "delayed w' = delayed w"
    with s w show ?thesis
      by (simp add: pending_work_def)
  next
    assume "\<exists>d. delayed w' = delayed w @ [(d, active w ! i)] \<and>
                 attemptsMade (active w ! i) < attempts (opts (active w ! i))"
    then obtain d where dl: "delayed w' = delayed w @ [(d, active w ! i)]"
      and lt: "attemptsMade (active w ! i) < attempts (opts (active w ! i))"
      by blast
    from lt have "max 1 (remaining (active w ! i)) = remaining (active w ! i)"
      by (simp add: remaining_def)
    with s w dl show ?thesis
      by (simp add: pending_work_def)
  qed
next
  case (Promote i)
  with pool_step_promote [of k i w w'] assms
  have i: "i < length (delayed w)" and d: "delayed w' = without i (delayed w)"
    and w: "waiting w' = waiting w @ [snd (delayed w ! i)]" and a: "active w' = active w"
    by auto
  from sum_list_without [OF i, of "\<lambda>dj. 3 * max 1 (remaining (snd dj)) + 1"]
  have "sum_list (map (\<lambda>dj. 3 * max 1 (remaining (snd dj)) + 1) (delayed w')) +
          (3 * max 1 (remaining (snd (delayed w ! i))) + 1)
        = sum_list (map (\<lambda>dj. 3 * max 1 (remaining (snd dj)) + 1) (delayed w))"
    by (simp add: d)
  with w a show ?thesis
    by (simp add: pending_work_def)
qed

lemma step_enabled: "(pool_step k c w \<noteq> None) = (c \<in> set (enabled k w))"
proof (cases c)
  case ClaimNext
  then show ?thesis
    by (auto simp: pool_step_def enabled_def split: list.splits)
next
  case (Finish i)
  then show ?thesis
    by (cases "settle (active w ! i) w"; cases "fst (settle (active w ! i) w)")
       (auto simp: pool_step_def enabled_def)
next
  case (Promote i)
  then show ?thesis
    by (auto simp: pool_step_def enabled_def)
qed

lemma idle_means_done:
  assumes "enabled k w = []" and "autorun k" and "0 < concurrency k"
  shows "waiting w = [] \<and> delayed w = [] \<and> active w = []"
proof -
  from assms(1) have a: "active w = []" and d: "delayed w = []"
    by (auto simp: enabled_def split: if_splits)
  with assms show ?thesis
    by (auto simp: enabled_def split: if_splits)
qed


lemma schedule_invariants:
  assumes "run_schedule k cs w = Some w'" and "length (active w) \<le> concurrency k"
  shows "length (active w') \<le> concurrency k \<and> length cs + pending_work w' \<le> pending_work w \<and>
         job_ids w' = job_ids w"
  using assms
proof (induction cs arbitrary: w)
  case Nil
  then show ?case by simp
next
  case (Cons c cs)
  from Cons.prems(1) obtain w1 where s: "pool_step k c w = Some w1"
    and r: "run_schedule k cs w1 = Some w'"
    by (auto split: option.splits)
  from Cons.IH [OF r step_cap [OF s Cons.prems(2)]] step_progress [OF s] step_ids [OF s]
  show ?case
    by simp
qed

lemma maximal_schedule: "\<exists>cs w'. run_schedule k cs w = Some w' \<and> enabled k w' = []"
proof (induction "pending_work w" arbitrary: w rule: less_induct)
  case less
  show ?case
  proof (cases "enabled k w")
    case Nil
    then have "run_schedule k [] w = Some w \<and> enabled k w = []"
      by simp
    then show ?thesis by blast
  next
    case (Cons c cs0)
    then have "c \<in> set (enabled k w)"
      by simp
    then obtain w1 where s: "pool_step k c w = Some w1"
      using step_enabled [of k c w] by auto
    from less [OF step_progress [OF s]]
    obtain cs w' where "run_schedule k cs w1 = Some w'" and "enabled k w' = []"
      by blast
    with s have "run_schedule k (c # cs) w = Some w' \<and> enabled k w' = []"
      by simp
    then show ?thesis by blast
  qed
qed

text \<open>
  C4, amended. In every execution of the pool, from a state within the cap, the number of
  active jobs never exceeds \<open>concurrency\<close> (5 in the source, 1 under test); every step uses
  up pending work, so no execution is longer than the pending work of its first state;
  no job is lost or duplicated; the steps that can be taken are the enabled ones, and from
  every state some execution reaches a state where none is; and in a started pool
  (\<open>autorun\<close>, that is outside the test environment) with at least one executor, a state
  where no step is enabled has every job completed or failed.
\<close>

theorem pool_cap_and_termination:
  assumes "run_schedule k cs w = Some w'" and "length (active w) \<le> concurrency k"
  shows "length (active w') \<le> concurrency k \<and>
         length cs + pending_work w' \<le> pending_work w \<and>
         job_ids w' = job_ids w \<and>
         (\<exists>cs' w''. run_schedule k cs' w' = Some w'' \<and> enabled k w'' = []) \<and>
         (\<forall>c. (pool_step k c w' \<noteq> None) = (c \<in> set (enabled k w'))) \<and>
         (autorun k \<and> 0 < concurrency k \<and> enabled k w' = [] \<longrightarrow>
            waiting w' = [] \<and> delayed w' = [] \<and> active w' = [] \<and>
            terminal_ids w' = job_ids w)"
proof -
  note inv = schedule_invariants [OF assms]
  have "autorun k \<and> 0 < concurrency k \<and> enabled k w' = [] \<longrightarrow>
            waiting w' = [] \<and> delayed w' = [] \<and> active w' = [] \<and>
            terminal_ids w' = job_ids w"
  proof
    assume a: "autorun k \<and> 0 < concurrency k \<and> enabled k w' = []"
    then have e: "waiting w' = [] \<and> delayed w' = [] \<and> active w' = []"
      using idle_means_done [of k w'] by simp
    then have "terminal_ids w' = job_ids w'"
      by (simp add: terminal_ids_def job_ids_def)
    with inv e show "waiting w' = [] \<and> delayed w' = [] \<and> active w' = [] \<and>
            terminal_ids w' = job_ids w"
      by simp
  qed
  with inv maximal_schedule [of k w'] step_enabled [of k _ w'] show ?thesis
    by blast
qed

text \<open>The definitions a concrete execution of the pool unfolds.\<close>

lemmas pool_defs =
  pool_step_def settle_def retry_policy_def computedDelay_def on_completed_def on_failed_def
  is_test_def claimed_def without_def enabled_def default_job_options_def
  processor_def processor_try_def processor_catch_def mark_processing_def mark_processed_def
  mark_failed_def file_update_def next_db_fault_def log_effect_def console_write_def
  processFile_def

lemmas module_defs =
  module_load_def initializeQueue_def initializeWorker_def new_Queue_def new_Worker_def
  addFileProcessingJob_def queue_add_def next_redis_fault_def do_op_def

lemmas world_defs =
  example_world_def test_world_def production_pool_def test_pool_def example_row_def
  no_such_file_def

text \<open>
  C4, as stated, fails on its second half. Under \<open>NODE_ENV=test\<close> the module builds the
  worker with \<open>autorun: false\<close> and nothing starts it: the submitted job waits, no step is
  enabled, and the job reaches no terminal state.
\<close>

theorem test_pool_never_starts_counterexample:
  "fst (module_load test_world) = (0, 1) \<and>
   workers test_pool 1 =
     Some \<lparr> worker_queue = ''fileProcessing'', concurrency = 1, autorun = False \<rparr> \<and>
   map job_id (waiting test_pool) = [1] \<and>
   enabled \<lparr> worker_queue = ''fileProcessing'', concurrency = 1, autorun = False \<rparr> test_pool = [] \<and>
   run_schedule \<lparr> worker_queue = ''fileProcessing'', concurrency = 1, autorun = False \<rparr>
     [ClaimNext] test_pool = None \<and>
   terminal_ids test_pool = {#}"
  by (simp add: pool_defs module_defs world_defs terminal_ids_def Let_def)


theorem pool_cap_and_termination_witness:
  "\<exists>w'. run_schedule \<lparr> worker_queue = ''fileProcessing'', concurrency = 5, autorun = True \<rparr>
            [ClaimNext, ClaimNext, Finish 0, Finish 0, Promote 0, ClaimNext, Finish 0,
             Promote 0, ClaimNext, Finish 0] production_pool = Some w' \<and>
         length (active w') \<le> 5 \<and>
         map job_id (completed w') = [1] \<and> map job_id (failed w') = [2] \<and>
         waiting w' = [] \<and> delayed w' = [] \<and> active w' = [] \<and>
         terminal_ids w' = job_ids production_pool"
proof -
  let ?k = "\<lparr> worker_queue = ''fileProcessing'', concurrency = 5, autorun = True \<rparr>"
  let ?cs = "[ClaimNext, ClaimNext, Finish 0, Finish 0, Promote 0, ClaimNext, Finish 0,
              Promote 0, ClaimNext, Finish 0]"
  have "map_option (\<lambda>w. (map job_id (completed w), map job_id (failed w), enabled ?k w))
          (run_schedule ?k ?cs production_pool) = Some ([1], [2], [])"
    by (simp add: pool_defs module_defs world_defs Let_def)
  then obtain w' where r: "run_schedule ?k ?cs production_pool = Some w'"
    and c: "map job_id (completed w') = [1]" and f: "map job_id (failed w') = [2]"
    and e: "enabled ?k w' = []"
    by auto
  have a: "length (active production_pool) \<le> concurrency ?k"
    by (simp add: pool_defs module_defs world_defs Let_def)
  from pool_cap_and_termination [OF r a] e
  have "length (active w') \<le> 5 \<and> waiting w' = [] \<and> delayed w' = [] \<and> active w' = [] \<and>
        terminal_ids w' = job_ids production_pool"
    by simp
  with r c f show ?thesis
    by (intro exI [of _ w']) simp
qed


section \<open>The failure of an attempt, from the catch block to the pool\<close>





section \<open>The job the service submits\<close>

lemma module_load_queue:
  assumes "fileQueue w = None" and "module_load w = ((q, k), w0)"
  shows "queues w0 q =
           Some \<lparr> queue_name = ''fileProcessing'', defaultJobOptions = default_job_options \<rparr>"
  using assms
  by (auto simp: module_load_def initializeQueue_def initializeWorker_def new_Queue_def
                 new_Worker_def Let_def
           split: if_splits option.splits prod.splits)

lemma queue_add_queues:
  "queue_add q n d w = (r, w') \<Longrightarrow> queues w' = queues w"
  by (auto simp: queue_add_def next_redis_fault_def log_effect_def Let_def
           split: list.splits option.splits)

lemma addFileProcessingJob_queues:
  assumes "fileQueue w = Some q"
  shows "queues (snd (addFileProcessingJob fid p w)) = queues w"
  using assms queue_add_queues [of q "''processFile''" "\<lparr>fileId = fid, filePath = p\<rparr>" w]
  by (cases "queue_add q ''processFile'' \<lparr>fileId = fid, filePath = p\<rparr> w")
     (simp add: addFileProcessingJob_def initializeQueue_set)

lemma file_create_queues:
  "file_create row w = (r, w') \<Longrightarrow> queues w' = queues w"
  by (auto simp: file_create_def next_db_fault_def log_effect_def Let_def
           split: list.splits option.splits)

lemma upload_queues:
  assumes "fileQueue w = Some q"
  shows "queues (snd (upload req w)) = queues w"
proof (cases "req_file req")
  case None
  then show ?thesis by (simp add: upload_def)
next
  case (Some f)
  let ?row = "\<lparr> userId = req_user_id req, originalFilename = originalname f,
                 storagePath = path f, title = body_title req,
                 description = body_description req, status = Uploaded,
                 extractedData = None, uploadedAt = date_now w \<rparr>"
  obtain r w1 where c: "file_create ?row w = (r, w1)"
    by (cases "file_create ?row w")
  from file_create_module [OF c] file_create_queues [OF c] assms
  have m1: "fileQueue w1 = Some q" "queues w1 = queues w"
    by simp_all
  show ?thesis
  proof (cases r)
    case (Inl e)
    then show ?thesis
      using Some c m1 by (simp add: upload_def upload_error_def console_write_def)
  next
    case (Inr created)
    obtain fid frow where cr: "created = (fid, frow)"
      by (cases created)
    obtain r2 w2 where a: "addFileProcessingJob fid (path f) w1 = (r2, w2)"
      by (cases "addFileProcessingJob fid (path f) w1")
    from addFileProcessingJob_queues [OF m1(1), of fid "path f"] a m1
    have m2: "queues w2 = queues w"
      by simp
    show ?thesis
      using Some c Inr cr a m2
      by (cases r2) (simp_all add: upload_def upload_error_def console_write_def)
  qed
qed

lemma do_op_queues:
  assumes "fileQueue w = Some q" and "worker w = Some k"
  shows "queues (do_op c w) = queues w"
proof (cases c)
  case InitializeQueue
  then show ?thesis using assms by (simp add: do_op_def initializeQueue_set)
next
  case InitializeWorker
  then show ?thesis using assms by (simp add: do_op_def initializeWorker_set)
next
  case (AddJob fid p)
  then show ?thesis using addFileProcessingJob_queues [OF assms(1)] by (simp add: do_op_def)
next
  case (UploadRequest req)
  then show ?thesis using upload_queues [OF assms(1)] by (simp add: do_op_def)
next
  case (Attempt j)
  then show ?thesis using processor_module [of j w] by (simp add: do_op_def)
qed

lemma do_ops_queues:
  "fileQueue w = Some q \<Longrightarrow> worker w = Some k \<Longrightarrow> queues (do_ops cs w) = queues w"
proof (induction cs arbitrary: w)
  case Nil
  then show ?case by simp
next
  case (Cons c cs)
  from do_op_module [OF Cons.prems, of c] do_op_queues [OF Cons.prems, of c]
    Cons.IH [of "do_op c w"]
  show ?case by simp
qed

lemma submitted_job:
  assumes "fileQueue w = None"
    and "addFileProcessingJob fid p (do_ops cs (snd (module_load w))) = (Inr j, w1)"
  shows "opts j = default_job_options \<and> attemptsMade j = 0 \<and>
         data j = \<lparr> fileId = fid, filePath = p \<rparr>"
proof -
  obtain q k w0 where l: "module_load w = ((q, k), w0)"
    by (cases "module_load w") auto
  from module_load_sets [OF l] have m: "fileQueue w0 = Some q" "worker w0 = Some k"
    by simp_all
  from do_ops_module [OF m, of cs] do_ops_queues [OF m, of cs] module_load_queue [OF assms(1) l]
  have f: "fileQueue (do_ops cs w0) = Some q"
    and i: "queues (do_ops cs w0) q =
              Some \<lparr> queue_name = ''fileProcessing'', defaultJobOptions = default_job_options \<rparr>"
    by simp_all
  from assms(2) l have "addFileProcessingJob fid p (do_ops cs w0) = (Inr j, w1)"
    by simp
  with f i show ?thesis
    by (auto simp: addFileProcessingJob_def initializeQueue_set queue_add_def
                   next_redis_fault_def Let_def
             split: option.splits list.splits)
qed

lemma test_worker_not_started:
  assumes "is_test w" and "worker w = None"
  shows "workers (snd (module_load w)) (snd (fst (module_load w))) =
           Some \<lparr> worker_queue = ''fileProcessing'', concurrency = 1, autorun = False \<rparr>"
  using assms
  by (auto simp: module_load_def initializeQueue_def initializeWorker_def new_Queue_def
                 new_Worker_def is_test_def Let_def
           split: option.splits prod.splits)

text \<open>
  C3, amended. A job submitted through \<open>addFileProcessingJob\<close>, after the module is loaded
  and whatever calls came in between, carries the options the queue is configured with:
  three attempts, exponential backoff from 1000. If its file never reads, a worker that
  takes it executes it exactly three times, 1000 and then 2000 apart, and the job is
  finalized as failed, which is the last thing that happens to it. With \<open>n\<close> attempts
  allowed instead, it is executed exactly \<open>n\<close> times with the delays 1000, 2000, 4000, ...,
  strictly increasing. When the row of the item exists and the database answers, the row
  is left \<open>failed\<close> with the error of the last attempt. A pool that is not started claims
  no job, and the worker the module builds under test is not started.
\<close>

theorem submitted_job_exhausts_attempts:
  assumes "fileQueue w = None"
    and "addFileProcessingJob fid p (do_ops cs (snd (module_load w))) = (Inr j, w1)"
    and "disk w2 p = Inl e"
  shows "opts j = default_job_options \<and> attempts (opts j) = 3 \<and> attemptsMade j = 0 \<and>
         data j = \<lparr> fileId = fid, filePath = p \<rparr> \<and>
         executions (fst (run_job j w2)) = 3 \<and>
         delays (fst (run_job j w2)) = [1000, 2000] \<and>
         (\<exists>err. final (fst (run_job j w2)) = Inl err) \<and>
         (\<exists>es. effects (snd (run_job j w2)) = es @ [Finalized (job_id j) False]) \<and>
         (\<forall>row. files w2 fid = Some row \<and> db_faults w2 = [] \<longrightarrow>
            final (fst (run_job j w2)) = Inl (Error (''File processing failed: '' @ message e)) \<and>
            files (snd (run_job j w2)) fid =
              Some (row\<lparr>status := Failed,
                        extractedData := Some (error_json
                          (Error (''File processing failed: '' @ message e)))\<rparr>)) \<and>
         (\<forall>n. 0 < n \<longrightarrow>
            executions (fst (run_job (j\<lparr>opts := (opts j)\<lparr>attempts := n\<rparr>\<rparr>) w2)) = n \<and>
            delays (fst (run_job (j\<lparr>opts := (opts j)\<lparr>attempts := n\<rparr>\<rparr>) w2)) =
              map (\<lambda>i. 1000 * 2 ^ i) [0..<n - 1] \<and>
            sorted_wrt (<) (delays (fst (run_job (j\<lparr>opts := (opts j)\<lparr>attempts := n\<rparr>\<rparr>) w2)))) \<and>
         (\<forall>k ws. \<not> autorun k \<longrightarrow> pool_step k ClaimNext ws = None) \<and>
         (is_test w \<and> worker w = None \<longrightarrow>
            workers (snd (module_load w)) (snd (fst (module_load w))) =
              Some \<lparr> worker_queue = ''fileProcessing'', concurrency = 1, autorun = False \<rparr>)"
proof -
  from submitted_job [OF assms(1,2)]
  have o: "opts j = default_job_options" and a: "attemptsMade j = 0"
    and d: "data j = \<lparr> fileId = fid, filePath = p \<rparr>"
    by simp_all
  have dk: "disk w2 (filePath (data j)) = Inl e"
    using assms(3) d by simp
  have general: "\<And>n. 0 < n \<Longrightarrow>
            executions (fst (run_job (j\<lparr>opts := (opts j)\<lparr>attempts := n\<rparr>\<rparr>) w2)) = n \<and>
            delays (fst (run_job (j\<lparr>opts := (opts j)\<lparr>attempts := n\<rparr>\<rparr>) w2)) =
              map (\<lambda>i. 1000 * 2 ^ i) [0..<n - 1] \<and>
            sorted_wrt (<) (delays (fst (run_job (j\<lparr>opts := (opts j)\<lparr>attempts := n\<rparr>\<rparr>) w2)))"
  proof -
    fix n :: nat
    assume n: "0 < n"
    let ?j = "j\<lparr>opts := (opts j)\<lparr>attempts := n\<rparr>\<rparr>"
    have "disk w2 (filePath (data ?j)) = Inl e" and "attemptsMade ?j = 0"
      and "opts ?j = \<lparr> attempts = n, backoff_type = ''exponential'', backoff_delay = 1000 \<rparr>"
      using dk a o by (simp_all add: default_job_options_def)
    from run_job_exhausts_attempts [OF this n]
    show "executions (fst (run_job ?j w2)) = n \<and>
            delays (fst (run_job ?j w2)) = map (\<lambda>i. 1000 * 2 ^ i) [0..<n - 1] \<and>
            sorted_wrt (<) (delays (fst (run_job ?j w2)))"
      by blast
  qed
  have o3: "opts j = \<lparr> attempts = 3, backoff_type = ''exponential'', backoff_delay = 1000 \<rparr>"
    using o by (simp add: default_job_options_def)
  have three: "(0::nat) < 3"
    by simp
  note r = run_job_exhausts_attempts [OF dk a o3 three]
  from r have ex: "executions (fst (run_job j w2)) = 3"
    by blast
  from r have dl: "delays (fst (run_job j w2)) = [1000, 2000]"
    by blast
  from r have fin: "\<exists>err. final (fst (run_job j w2)) = Inl err"
    by blast
  from r have eff: "\<exists>es. effects (snd (run_job j w2)) = es @ [Finalized (job_id j) False]"
    by blast
  from r have "\<forall>row. files w2 (fileId (data j)) = Some row \<and> db_faults w2 = [] \<longrightarrow>
            final (fst (run_job j w2)) = Inl (Error (''File processing failed: '' @ message e)) \<and>
            files (snd (run_job j w2)) (fileId (data j)) =
              Some (row\<lparr>status := Failed,
                        extractedData := Some (error_json
                          (Error (''File processing failed: '' @ message e)))\<rparr>)"
    by blast
  then have row: "\<forall>row. files w2 fid = Some row \<and> db_faults w2 = [] \<longrightarrow>
            final (fst (run_job j w2)) = Inl (Error (''File processing failed: '' @ message e)) \<and>
            files (snd (run_job j w2)) fid =
              Some (row\<lparr>status := Failed,
                        extractedData := Some (error_json
                          (Error (''File processing failed: '' @ message e)))\<rparr>)"
    by (simp add: d)
  have unstarted: "\<forall>k ws. \<not> autorun k \<longrightarrow> pool_step k ClaimNext ws = None"
    by (simp add: pool_step_def split: list.splits)
  have test: "is_test w \<and> worker w = None \<longrightarrow>
            workers (snd (module_load w)) (snd (fst (module_load w))) =
              Some \<lparr> worker_queue = ''fileProcessing'', concurrency = 1, autorun = False \<rparr>"
    using test_worker_not_started [of w] by blast
  have a3: "attempts (opts j) = 3"
    using o3 by simp
  from o a3 a d ex dl fin eff row general unstarted test show ?thesis
    by blast
qed


text \<open>
  C3, as stated, fails. In production, with a database that drops the last status write,
  the submitted job for the missing file is executed three times and finalized, and the
  row of the item is left \<open>processing\<close>, not \<open>failed\<close>. Under \<open>NODE_ENV=test\<close> the job for
  the missing file is submitted with the same options and no step of the pool is enabled:
  it is executed zero times.
\<close>

theorem unreadable_job_not_failed_counterexample:
  "map job_id (waiting lossy_pool) = [1, 2] \<and>
   data (hd (waiting lossy_pool)) = \<lparr> fileId = 2, filePath = ''uploads/gone.txt'' \<rparr> \<and>
   disk lossy_pool ''uploads/gone.txt'' = Inl (no_such_file ''uploads/gone.txt'') \<and>
   executions (fst (run_job (hd (waiting lossy_pool)) lossy_pool)) = 3 \<and>
   map_option status (files (snd (run_job (hd (waiting lossy_pool)) lossy_pool)) 2) =
     Some Processing \<and>
   map (\<lambda>j. (job_id j, data j, opts j)) (waiting test_gone_pool) =
     [(1, \<lparr> fileId = 2, filePath = ''uploads/gone.txt'' \<rparr>, default_job_options)] \<and>
   disk test_gone_pool ''uploads/gone.txt'' = Inl (no_such_file ''uploads/gone.txt'') \<and>
   workers test_gone_pool 1 =
     Some \<lparr> worker_queue = ''fileProcessing'', concurrency = 1, autorun = False \<rparr> \<and>
   enabled \<lparr> worker_queue = ''fileProcessing'', concurrency = 1, autorun = False \<rparr>
     test_gone_pool = [] \<and>
   effects test_gone_pool = [JobAdded 0 1 2]"
  by (simp add: run_job.simps pool_defs module_defs world_defs gone_first_pool_def
      lossy_pool_def test_gone_pool_def Let_def)


theorem submitted_job_exhausts_attempts_witness:
  "\<exists>j w1. addFileProcessingJob 2 ''uploads/gone.txt'' (snd (module_load example_world)) =
            (Inr j, w1) \<and>
          opts j = default_job_options \<and>
          executions (fst (run_job j w1)) = 3 \<and>
          delays (fst (run_job j w1)) = [1000, 2000] \<and>
          final (fst (run_job j w1)) =
            Inl (Error ''File processing failed: ENOENT: no such file or directory, open uploads/gone.txt'') \<and>
          map_option status (files (snd (run_job j w1)) 2) = Some Failed"
proof -
  let ?r = "addFileProcessingJob 2 ''uploads/gone.txt'' (snd (module_load example_world))"
  let ?j = "\<lparr> job_id = 1, job_name = ''processFile'',
               data = \<lparr> fileId = 2, filePath = ''uploads/gone.txt'' \<rparr>,
               attemptsMade = 0, opts = default_job_options \<rparr>"
  have "fst ?r = Inr ?j"
    by (simp add: module_defs pool_defs world_defs Let_def)
  then have s: "addFileProcessingJob 2 ''uploads/gone.txt''
                  (do_ops [] (snd (module_load example_world))) = (Inr ?j, snd ?r)"
    by (simp add: prod_eq_iff)
  have f: "fileQueue example_world = None"
    by (simp add: example_world_def)
  have d: "disk (snd ?r) ''uploads/gone.txt'' = Inl (no_such_file ''uploads/gone.txt'')"
    by (simp add: module_defs pool_defs world_defs Let_def)
  have r: "files (snd ?r) 2 =
             Some (example_row\<lparr>originalFilename := ''gone.txt'',
                               storagePath := ''uploads/gone.txt''\<rparr>) \<and>
           db_faults (snd ?r) = []"
    by (simp add: module_defs pool_defs world_defs Let_def)
  from submitted_job_exhausts_attempts [OF f s d] r
  have "opts ?j = default_job_options \<and>
        executions (fst (run_job ?j (snd ?r))) = 3 \<and>
        delays (fst (run_job ?j (snd ?r))) = [1000, 2000] \<and>
        final (fst (run_job ?j (snd ?r))) =
          Inl (Error (''File processing failed: '' @ message (no_such_file ''uploads/gone.txt''))) \<and>
        map_option status (files (snd (run_job ?j (snd ?r))) 2) = Some Failed"
    by auto
  then have "?r = (Inr ?j, snd ?r) \<and> opts ?j = default_job_options \<and>
        executions (fst (run_job ?j (snd ?r))) = 3 \<and>
        delays (fst (run_job ?j (snd ?r))) = [1000, 2000] \<and>
        final (fst (run_job ?j (snd ?r))) =
          Inl (Error ''File processing failed: ENOENT: no such file or directory, open uploads/gone.txt'') \<and>
        map_option status (files (snd (run_job ?j (snd ?r))) 2) = Some Failed"
    using s by (simp add: no_such_file_def)
  then show ?thesis
    by blast
qed

end
